theory Spec2Isabelle
  imports Complex_Main
begin

section \<open>JavaScript numbers\<close>

text \<open>
  A JavaScript \<^verbatim>\<open>number\<close> is an IEEE-754 double. The model keeps the three special
  values of the format and takes every finite value as an exact real: rounding is not
  modelled, and zero carries no sign (it behaves as \<^verbatim>\<open>+0\<close>; no computation below
  divides by a negative zero). No operation on numbers raises in
  JavaScript; a division by zero or a logarithm of zero yields an infinity or
  \<^verbatim>\<open>NaN\<close>, which the later operations propagate by the rules written out here.
\<close>

datatype jsnum = Fin real | PInf | NInf | NaN

definition inf_of_sign :: "real \<Rightarrow> jsnum" where
  "inf_of_sign s = (if 0 < s then PInf else if s < 0 then NInf else NaN)"

fun js_sgn :: "jsnum \<Rightarrow> real" where
  "js_sgn (Fin a) = sgn a"
| "js_sgn PInf = 1"
| "js_sgn NInf = - 1"
| "js_sgn NaN = 0"

instantiation jsnum :: "{plus, minus, uminus, times, inverse, abs, ord}"
begin

fun uminus_jsnum :: "jsnum \<Rightarrow> jsnum" where
  "uminus_jsnum (Fin a) = Fin (- a)"
| "uminus_jsnum PInf = NInf"
| "uminus_jsnum NInf = PInf"
| "uminus_jsnum NaN = NaN"

fun plus_jsnum :: "jsnum \<Rightarrow> jsnum \<Rightarrow> jsnum" where
  "plus_jsnum NaN y = NaN"
| "plus_jsnum x NaN = NaN"
| "plus_jsnum (Fin a) (Fin b) = Fin (a + b)"
| "plus_jsnum PInf NInf = NaN"
| "plus_jsnum NInf PInf = NaN"
| "plus_jsnum (Fin a) y = y"
| "plus_jsnum x y = x"

definition minus_jsnum :: "jsnum \<Rightarrow> jsnum \<Rightarrow> jsnum" where
  "minus_jsnum x y = x + (- y)"

fun times_jsnum :: "jsnum \<Rightarrow> jsnum \<Rightarrow> jsnum" where
  "times_jsnum NaN y = NaN"
| "times_jsnum x NaN = NaN"
| "times_jsnum (Fin a) (Fin b) = Fin (a * b)"
| "times_jsnum x y = inf_of_sign (js_sgn x * js_sgn y)"

fun divide_jsnum :: "jsnum \<Rightarrow> jsnum \<Rightarrow> jsnum" where
  "divide_jsnum NaN y = NaN"
| "divide_jsnum x NaN = NaN"
| "divide_jsnum (Fin a) (Fin b) = (if b = 0 then inf_of_sign (sgn a) else Fin (a / b))"
| "divide_jsnum (Fin a) y = Fin 0"
| "divide_jsnum x (Fin b) = inf_of_sign (js_sgn x * (if b < 0 then - 1 else 1))"
| "divide_jsnum x y = NaN"

definition inverse_jsnum :: "jsnum \<Rightarrow> jsnum" where
  "inverse_jsnum x = divide (Fin 1) x"

fun abs_jsnum :: "jsnum \<Rightarrow> jsnum" where
  "abs_jsnum (Fin a) = Fin \<bar>a\<bar>"
| "abs_jsnum PInf = PInf"
| "abs_jsnum NInf = PInf"
| "abs_jsnum NaN = NaN"

fun less_jsnum :: "jsnum \<Rightarrow> jsnum \<Rightarrow> bool" where
  "less_jsnum NaN y = False"
| "less_jsnum x NaN = False"
| "less_jsnum (Fin a) (Fin b) = (a < b)"
| "less_jsnum x PInf = (x \<noteq> PInf)"
| "less_jsnum NInf y = (y \<noteq> NInf)"
| "less_jsnum x y = False"

definition less_eq_jsnum :: "jsnum \<Rightarrow> jsnum \<Rightarrow> bool" where
  "less_eq_jsnum x y = (x < y \<or> (x = y \<and> x \<noteq> NaN))"

instance ..

end

definition Math_PI :: jsnum where
  "Math_PI = Fin pi"

fun Math_cos :: "jsnum \<Rightarrow> jsnum" where
  "Math_cos (Fin x) = Fin (cos x)"
| "Math_cos x = NaN"

text \<open>
  The real tangent has a pole at \<open>pi / 2\<close>, which no double equals: at the double nearest
  to \<open>pi / 2\<close>, the argument the code reaches for a latitude of 90 degrees,
  \<^verbatim>\<open>Math.tan\<close> returns 16331239353195370. The model keeps this value at the pole.
  For latitudes between -90 and 90 degrees the argument lies between 0 and \<open>pi / 2\<close>,
  so no other pole of the tangent is reached.
\<close>

definition tan_at_half_pi :: real where
  "tan_at_half_pi = 16331239353195370"

fun Math_tan :: "jsnum \<Rightarrow> jsnum" where
  "Math_tan (Fin x) = Fin (if x = pi / 2 then tan_at_half_pi else tan x)"
| "Math_tan x = NaN"

fun Math_log :: "jsnum \<Rightarrow> jsnum" where
  "Math_log (Fin x) = (if 0 < x then Fin (ln x) else if x = 0 then NInf else NaN)"
| "Math_log PInf = PInf"
| "Math_log x = NaN"

fun Math_sqrt :: "jsnum \<Rightarrow> jsnum" where
  "Math_sqrt (Fin x) = (if x < 0 then NaN else Fin (sqrt x))"
| "Math_sqrt PInf = PInf"
| "Math_sqrt x = NaN"

fun Math_max :: "jsnum \<Rightarrow> jsnum \<Rightarrow> jsnum" where
  "Math_max NaN y = NaN"
| "Math_max x NaN = NaN"
| "Math_max x y = (if x < y then y else x)"

fun Math_min :: "jsnum \<Rightarrow> jsnum \<Rightarrow> jsnum" where
  "Math_min NaN y = NaN"
| "Math_min x NaN = NaN"
| "Math_min x y = (if y < x then y else x)"

section \<open>Types\<close>

text \<open>
  \<^verbatim>\<open>interface Coordinates { lat: number; lon: number }\<close>, in degrees. The fields are
  finite numbers (they are parsed from JSON), so they are reals here.
\<close>

record Coordinates =
  lat :: real
  lon :: real

datatype PathType = orthodromic | loxodromic

definition valid_coords :: "Coordinates \<Rightarrow> bool" where
  "valid_coords p =
     (- 90 \<le> lat p \<and> lat p \<le> 90 \<and> - 180 \<le> lon p \<and> lon p \<le> 180)"

section \<open>Distances (utils/geo)\<close>

text \<open>
  \<^verbatim>\<open>deg2rad\<close> and the rhumb-line distance. The great-circle distance
  \<^verbatim>\<open>calculateOrthodromicDistance\<close> of the same file is not modelled: what is asked of
  it is decided by the rounding of doubles (at antipodal points its quantity \<^verbatim>\<open>a\<close>
  rounds to 1.0000000000000002 and \<^verbatim>\<open>Math.sqrt(1 - a)\<close> is \<^verbatim>\<open>NaN\<close>), which
  this model does not have.
\<close>

definition deg2rad :: "jsnum \<Rightarrow> jsnum" where
  "deg2rad deg = deg * (Math_PI / Fin 180)"

definition calculateLoxodromicDistance :: "Coordinates \<Rightarrow> Coordinates \<Rightarrow> jsnum" where
  "calculateLoxodromicDistance p1 p2 =
     (let R = Fin 6371;
          phi1 = deg2rad (Fin (lat p1));
          phi2 = deg2rad (Fin (lat p2));
          deltaPhi = phi2 - phi1;
          deltaLon0 = deg2rad (Fin (lon p2) - Fin (lon p1));
          deltaLon =
            (if Math_PI < \<bar>deltaLon0\<bar>
             then (if Fin 0 < deltaLon0 then - (Fin 2 * Math_PI - deltaLon0)
                   else Fin 2 * Math_PI + deltaLon0)
             else deltaLon0);
          deltaPsi = Math_log (Math_tan (phi2 / Fin 2 + Math_PI / Fin 4) /
                               Math_tan (phi1 / Fin 2 + Math_PI / Fin 4));
          q = (if Fin (10 / 10 ^ 12) < \<bar>deltaPsi\<bar> then deltaPhi / deltaPsi else Math_cos phi1);
          d = Math_sqrt (deltaPhi * deltaPhi + q * q * deltaLon * deltaLon) * R
      in d)"

text \<open>
  The rhumb-line value as the specification writes it: the longitude difference is moved by
  \<open>2 pi\<close> towards the shorter way round when its magnitude exceeds \<open>pi\<close>, the
  stretched-latitude difference is \<open>ln (tan (phi2/2 + pi/4) / tan (phi1/2 + pi/4))\<close>,
  and \<open>q\<close> is \<open>dPhi / dPsi\<close> when \<open>|dPsi| > 1e-11\<close> and \<open>cos phi1\<close> otherwise.
  The logarithm, the tangent and the quotient are those of JavaScript numbers.
\<close>

definition wrap_shorter :: "real \<Rightarrow> real" where
  "wrap_shorter d = (if pi < d then d - 2 * pi else if d < - pi then d + 2 * pi else d)"

definition loxodromic_reference :: "Coordinates \<Rightarrow> Coordinates \<Rightarrow> jsnum" where
  "loxodromic_reference p1 p2 =
     (let R = 6371;
          phi1 = lat p1 * pi / 180; phi2 = lat p2 * pi / 180;
          lambda1 = lon p1 * pi / 180; lambda2 = lon p2 * pi / 180;
          dPhi = phi2 - phi1;
          dLambda = wrap_shorter (lambda2 - lambda1);
          dPsi = Math_log (Math_tan (Fin (phi2 / 2 + pi / 4)) / Math_tan (Fin (phi1 / 2 + pi / 4)));
          q = (if Fin (1 / 10 ^ 11) < \<bar>dPsi\<bar> then Fin dPhi / dPsi else Fin (cos phi1))
      in Fin R * Math_sqrt (Fin (dPhi\<^sup>2) + q * q * Fin (dLambda\<^sup>2)))"

section \<open>The sampled loxodromic route (components/GlobeVisualization)\<close>

text \<open>
  The points effect of the globe builds the route of a loxodromic path as a list of
  \<^verbatim>\<open>[lon, lat]\<close> pairs in degrees: \<^verbatim>\<open>numPoints + 1\<close> samples, pushed by a
  \<^verbatim>\<open>for\<close> loop over \<^verbatim>\<open>i = 0 .. numPoints\<close>.
\<close>

definition numPoints :: nat where
  "numPoints = 50"

definition route_sample ::
  "jsnum \<Rightarrow> jsnum \<Rightarrow> jsnum \<Rightarrow> jsnum \<Rightarrow> jsnum \<Rightarrow> nat \<Rightarrow> jsnum \<times> jsnum" where
  "route_sample lat1 lat2 lon1 lon2 dPsi i =
     (let f = Fin (real i) / Fin (real numPoints);
          lat_i = lat1 + (lat2 - lat1) * f;
          lon_i =
            (if \<bar>dPsi\<bar> < Fin (1 / 10 ^ 10) then lon1 + (lon2 - lon1) * f
             else (let psi_i = Math_log (Math_tan (lat_i / Fin 2 + Math_PI / Fin 4));
                       psi1 = Math_log (Math_tan (lat1 / Fin 2 + Math_PI / Fin 4))
                   in lon1 + (lon2 - lon1) * (psi_i - psi1) / dPsi))
      in (lon_i * Fin 180 / Math_PI, lat_i * Fin 180 / Math_PI))"

function route_loop ::
  "jsnum \<Rightarrow> jsnum \<Rightarrow> jsnum \<Rightarrow> jsnum \<Rightarrow> jsnum \<Rightarrow> nat \<Rightarrow> (jsnum \<times> jsnum) list
     \<Rightarrow> (jsnum \<times> jsnum) list" where
  "route_loop lat1 lat2 lon1 lon2 dPsi i coords =
     (if i \<le> numPoints
      then route_loop lat1 lat2 lon1 lon2 dPsi (i + 1)
             (coords @ [route_sample lat1 lat2 lon1 lon2 dPsi i])
      else coords)"
  by pat_completeness auto
termination
  by (relation "measure (\<lambda>(lat1, lat2, lon1, lon2, dPsi, i, coords). numPoints + 1 - i)") auto

definition loxodromic_route :: "Coordinates \<Rightarrow> Coordinates \<Rightarrow> (jsnum \<times> jsnum) list" where
  "loxodromic_route start endp =
     (let lat1 = Fin (lat start) * Math_PI / Fin 180;
          lat2 = Fin (lat endp) * Math_PI / Fin 180;
          lon1 = Fin (lon start) * Math_PI / Fin 180;
          lon2_0 = Fin (lon endp) * Math_PI / Fin 180;
          lon2 =
            (if Math_PI < \<bar>lon2_0 - lon1\<bar>
             then lon2_0 + (if lon1 < lon2_0 then - Fin 2 * Math_PI else Fin 2 * Math_PI)
             else lon2_0);
          dPsi = Math_log (Math_tan (lat2 / Fin 2 + Math_PI / Fin 4) /
                           Math_tan (lat1 / Fin 2 + Math_PI / Fin 4))
      in route_loop lat1 lat2 lon1 lon2 dPsi 0 [])"

definition route_coordinates ::
  "PathType \<Rightarrow> Coordinates \<Rightarrow> Coordinates \<Rightarrow> (jsnum \<times> jsnum) list" where
  "route_coordinates pathType start endp =
     (if pathType = loxodromic then loxodromic_route start endp
      else [(Fin (lon start), Fin (lat start)), (Fin (lon endp), Fin (lat endp))])"

section \<open>The globe view (components/GlobeVisualization)\<close>

text \<open>
  The state of the \<^verbatim>\<open>d3.geoOrthographic\<close> projection object that the component
  reads and writes: its scale, its rotation triple in degrees and its translation. A point
  is a \<^verbatim>\<open>[lon, lat]\<close> pair in degrees.
\<close>

type_synonym lonlat = "real \<times> real"

record Projection =
  scale :: real
  rotation :: "real \<times> real \<times> real"
  translate :: "real \<times> real"

text \<open>
  Modelled from the spec: \<^verbatim>\<open>d3.geoDistance\<close> belongs to the d3 library, which is
  not part of the repository. The specification calls it the angular (great-circle)
  distance between two points, in radians: the angle between their unit vectors.
\<close>

definition geoDistance :: "lonlat \<Rightarrow> lonlat \<Rightarrow> real" where
  "geoDistance a b =
     (let lambda_a = fst a * pi / 180; phi_a = snd a * pi / 180;
          lambda_b = fst b * pi / 180; phi_b = snd b * pi / 180
      in arccos (sin phi_a * sin phi_b + cos phi_a * cos phi_b * cos (lambda_a - lambda_b)))"

definition view_center :: "Projection \<Rightarrow> lonlat" where
  "view_center proj = (- fst (rotation proj), - fst (snd (rotation proj)))"

text \<open>
  Modelled from the spec: the projection function of \<^verbatim>\<open>d3.geoOrthographic\<close> belongs
  to the d3 library. The specification describes it: rotate the coordinate by the view's
  rotation triple, project onto the viewing plane, scale, translate; the result is
  \<^verbatim>\<open>null\<close> when the angular distance of the point from the viewing centre exceeds
  \<open>pi / 2\<close>. The rotated unit vector has its first component towards the viewer,
  the second to the right and the third upwards.
\<close>

definition rotate_point :: "real \<times> real \<times> real \<Rightarrow> lonlat \<Rightarrow> real \<times> real \<times> real" where
  "rotate_point r p =
     (let deltaLambda = fst r * pi / 180; deltaPhi = fst (snd r) * pi / 180;
          deltaGamma = snd (snd r) * pi / 180;
          lambda = fst p * pi / 180 + deltaLambda; phi = snd p * pi / 180;
          x = cos lambda * cos phi; y = sin lambda * cos phi; z = sin phi;
          k = z * cos deltaPhi + x * sin deltaPhi
      in (x * cos deltaPhi - z * sin deltaPhi,
          y * cos deltaGamma - k * sin deltaGamma,
          k * cos deltaGamma + y * sin deltaGamma))"

definition orthographic_project :: "Projection \<Rightarrow> lonlat \<Rightarrow> (real \<times> real) option" where
  "orthographic_project proj p =
     (if pi / 2 < geoDistance p (view_center proj) then None
      else (let v = rotate_point (rotation proj) p
            in Some (fst (translate proj) + scale proj * fst (snd v),
                     snd (translate proj) - scale proj * snd (snd v))))"

text \<open>
  \<^verbatim>\<open>redrawElements\<close>, for one endpoint circle bound to the datum \<open>d\<close>: the
  attributes \<^verbatim>\<open>cx\<close> and \<^verbatim>\<open>cy\<close> (\<^verbatim>\<open>null\<close> when the projection returns
  \<^verbatim>\<open>null\<close>) and the style \<^verbatim>\<open>display\<close>.
\<close>

record EndpointAttrs =
  cx :: "real option"
  cy :: "real option"
  display :: string

definition redraw_endpoint :: "Projection \<Rightarrow> lonlat \<Rightarrow> EndpointAttrs" where
  "redraw_endpoint currentProjection d =
     (let projected = orthographic_project currentProjection d;
          gdistance = geoDistance d (- fst (rotation currentProjection),
                                     - fst (snd (rotation currentProjection)));
          isVisible = (gdistance \<le> pi / 2)
      in \<lparr>cx = map_option fst projected,
          cy = map_option snd projected,
          display = (if isVisible then ''inline'' else ''none'')\<rparr>)"

text \<open>
  The view state of the globe: the projection and the factor \<open>k\<close> of the zoom transform
  that d3 keeps for the \<^verbatim>\<open>svg\<close> element. The first effect creates the projection;
  the drag handler rotates it; the zoom handler sets its scale from the transform of the
  zoom event.
\<close>

record GlobeView =
  projection :: Projection
  zoom_k :: real

definition sens :: real where
  "sens = 0.25"

definition globe_base_scale :: "real \<Rightarrow> real \<Rightarrow> real" where
  "globe_base_scale width height = min width height / 2.2"

definition globe_init :: "real \<Rightarrow> real \<Rightarrow> GlobeView" where
  "globe_init width height =
     \<lparr>projection = \<lparr>scale = globe_base_scale width height, rotation = (0, - 20, 0),
                       translate = (width / 2, height / 2)\<rparr>,
      zoom_k = 1\<rparr>"

definition on_drag :: "real \<Rightarrow> real \<Rightarrow> Projection \<Rightarrow> Projection" where
  "on_drag dx dy proj =
     (let r = rotation proj;
          k = sens / (if scale proj = 0 then 1 else scale proj)
      in proj\<lparr>rotation := (fst r + dx * k * 100, fst (snd r) - dy * k * 100, 0)\<rparr>)"

definition on_zoom :: "real \<Rightarrow> real \<Rightarrow> real \<Rightarrow> Projection \<Rightarrow> Projection" where
  "on_zoom width height transform_k proj =
     proj\<lparr>scale := min width height / 2.2 * transform_k\<rparr>"

text \<open>
  Modelled from the spec: the zoom behaviour of d3 (\<^verbatim>\<open>d3.zoom\<close>) is not part of the
  repository. The specification says that a wheel or pinch event changes the factor within
  the scale extent given to \<^verbatim>\<open>scaleExtent\<close>: the requested factor is clamped to it.
\<close>

definition constrain_scale :: "real \<Rightarrow> real \<Rightarrow> jsnum \<Rightarrow> jsnum" where
  "constrain_scale lo hi k = Math_max (Fin lo) (Math_min (Fin hi) k)"

definition constrain_scale_real :: "real \<Rightarrow> real \<Rightarrow> real \<Rightarrow> real" where
  "constrain_scale_real lo hi k = max lo (min hi k)"

text \<open>
  The second effect of the globe, as far as the view is concerned. With points it starts a
  transition of 1250 ms that rotates to the midpoint of the two endpoints, which
  \<^verbatim>\<open>d3.geoInterpolate\<close> computes and the model takes as given; without points it
  starts nothing. A transition is its duration and its target.
\<close>

datatype 'a transition = Transition nat 'a

definition globe_points_effect ::
  "lonlat option \<Rightarrow> Projection \<Rightarrow> (real \<times> real \<times> real) transition option" where
  "globe_points_effect center proj =
     (case center of
        None \<Rightarrow> None
      | Some c \<Rightarrow> Some (Transition 1250 (- fst c, - snd c, snd (snd (rotation proj)))))"

datatype globe_event = GDrag real real | GWheel real | GPoints "lonlat option"

text \<open>
  One event on the globe. A wheel event asks for the factor \<open>k * f\<close>, d3 clamps it to
  the extent \<^verbatim>\<open>[0.8, 10]\<close> and calls the zoom handler; a transition is taken at its
  end, when the rotation is its target.
\<close>

fun globe_step :: "real \<Rightarrow> real \<Rightarrow> GlobeView \<Rightarrow> globe_event \<Rightarrow> GlobeView" where
  "globe_step width height v (GDrag dx dy) = v\<lparr>projection := on_drag dx dy (projection v)\<rparr>"
| "globe_step width height v (GWheel f) =
     (let k = constrain_scale_real 0.8 10 (zoom_k v * f)
      in \<lparr>projection = on_zoom width height k (projection v), zoom_k = k\<rparr>)"
| "globe_step width height v (GPoints center) =
     (case globe_points_effect center (projection v) of
        None \<Rightarrow> v
      | Some (Transition duration target) \<Rightarrow>
          v\<lparr>projection := (projection v)\<lparr>rotation := target\<rparr>\<rparr>)"

section \<open>The map view (components/MercatorVisualization)\<close>

text \<open>
  The zoom transform of d3 (\<^verbatim>\<open>k\<close>, \<^verbatim>\<open>x\<close>, \<^verbatim>\<open>y\<close>) is the view state of the
  map. The auto-fit takes the two projected endpoints, which the Mercator projection of d3
  computes and the model takes as given (for a latitude of -90 degrees d3 returns
  \<^verbatim>\<open>y = Infinity\<close>), and the size of the \<^verbatim>\<open>svg\<close> element.
\<close>

record ZoomTransform =
  zk :: jsnum
  zx :: jsnum
  zy :: jsnum

definition zoomIdentity :: ZoomTransform where
  "zoomIdentity = \<lparr>zk = Fin 1, zx = Fin 0, zy = Fin 0\<rparr>"

definition autofit_scale :: "jsnum \<times> jsnum \<Rightarrow> jsnum \<times> jsnum \<Rightarrow> real \<Rightarrow> real \<Rightarrow> jsnum" where
  "autofit_scale p1 p2 width height =
     (let bounds = ((Math_min (fst p1) (fst p2), Math_min (snd p1) (snd p2)),
                    (Math_max (fst p1) (fst p2), Math_max (snd p1) (snd p2)));
          dx = fst (snd bounds) - fst (fst bounds);
          dy = snd (snd bounds) - snd (fst bounds)
      in Math_max (Fin 0.8)
           (Math_min (Fin 18) (Fin 0.9 / Math_max (dx / Fin width) (dy / Fin height))))"

definition autofit_transform ::
  "jsnum \<times> jsnum \<Rightarrow> jsnum \<times> jsnum \<Rightarrow> real \<Rightarrow> real \<Rightarrow> ZoomTransform" where
  "autofit_transform p1 p2 width height =
     (let bounds = ((Math_min (fst p1) (fst p2), Math_min (snd p1) (snd p2)),
                    (Math_max (fst p1) (fst p2), Math_max (snd p1) (snd p2)));
          x = (fst (fst bounds) + fst (snd bounds)) / Fin 2;
          y = (snd (fst bounds) + snd (snd bounds)) / Fin 2;
          scale = autofit_scale p1 p2 width height;
          translate = (Fin width / Fin 2 - scale * x, Fin height / Fin 2 - scale * y)
      in \<lparr>zk = scale, zx = fst translate, zy = snd translate\<rparr>)"

definition mercator_points_effect ::
  "((jsnum \<times> jsnum) \<times> (jsnum \<times> jsnum)) option \<Rightarrow> real \<Rightarrow> real \<Rightarrow> ZoomTransform transition" where
  "mercator_points_effect projected width height =
     (case projected of
        Some (p1, p2) \<Rightarrow> Transition 1250 (autofit_transform p1 p2 width height)
      | None \<Rightarrow> Transition 750 zoomIdentity)"

datatype mercator_event =
    MWheel real real real
  | MPan real real
  | MPoints "((jsnum \<times> jsnum) \<times> (jsnum \<times> jsnum)) option"

text \<open>
  One event on the map. Modelled from the spec, d3 being absent: a wheel event at the cursor
  \<open>(px, py)\<close> asks for the factor \<open>k * f\<close>, which is clamped to the extent
  \<^verbatim>\<open>[0.8, 18]\<close>, and keeps the point under the cursor fixed; a drag moves the
  translation. From the source: the transition that the points effect starts, taken at its
  end.
\<close>

fun mercator_step :: "real \<Rightarrow> real \<Rightarrow> ZoomTransform \<Rightarrow> mercator_event \<Rightarrow> ZoomTransform" where
  "mercator_step width height t (MWheel f px py) =
     (let k = constrain_scale 0.8 18 (zk t * Fin f)
      in \<lparr>zk = k,
          zx = Fin px - (Fin px - zx t) / zk t * k,
          zy = Fin py - (Fin py - zy t) / zk t * k\<rparr>)"
| "mercator_step width height t (MPan dx dy) = t\<lparr>zx := zx t + Fin dx, zy := zy t + Fin dy\<rparr>"
| "mercator_step width height t (MPoints projected) =
     (case mercator_points_effect projected width height of Transition duration target \<Rightarrow> target)"

text \<open>
  A pair of finite numbers, and the events whose projected endpoints are pairs of finite
  numbers.
\<close>

definition finite_point :: "jsnum \<times> jsnum \<Rightarrow> bool" where
  "finite_point p = (case p of (Fin x, Fin y) \<Rightarrow> True | _ \<Rightarrow> False)"

fun mercator_event_ok :: "mercator_event \<Rightarrow> bool" where
  "mercator_event_ok (MPoints (Some (p1, p2))) = (finite_point p1 \<and> finite_point p2)"
| "mercator_event_ok e = True"

definition in_extent :: "real \<Rightarrow> real \<Rightarrow> jsnum \<Rightarrow> bool" where
  "in_extent lo hi k = (case k of Fin r \<Rightarrow> lo \<le> r \<and> r \<le> hi | _ \<Rightarrow> False)"

section \<open>The visualize request (App)\<close>

text \<open>
  The state of the application that \<^verbatim>\<open>handleVisualize\<close> writes, and the three ways a
  call of \<^verbatim>\<open>getCoordinatesForLocation\<close> ends: with coordinates, with \<^verbatim>\<open>null\<close>,
  or rejected with an error message.
\<close>

record LocationPoint =
  name :: string
  coords :: Coordinates

record AppState =
  points :: "(LocationPoint \<times> LocationPoint) option"
  isLoading :: bool
  error :: "string option"

datatype geocode_result = Resolved Coordinates | NoResult | Rejected string

text \<open>
  The handler up to its \<^verbatim>\<open>await\<close>. The flag says whether the two geocoding calls
  are made.
\<close>

definition handleVisualize_begin :: "string \<Rightarrow> string \<Rightarrow> AppState \<Rightarrow> AppState \<times> bool" where
  "handleVisualize_begin from to st =
     (if from = [] \<or> to = []
      then (st\<lparr>error := Some ''Please enter both a start and end location.''\<rparr>, False)
      else (st\<lparr>isLoading := True, error := None, points := None\<rparr>, True))"

text \<open>
  \<^verbatim>\<open>Promise.all\<close> rejects with the error of the call that is rejected first; the flag
  says that the second call settles before the first.
\<close>

definition promise_all ::
  "bool \<Rightarrow> geocode_result \<Rightarrow> geocode_result \<Rightarrow> string + (Coordinates option \<times> Coordinates option)" where
  "promise_all second_first r1 r2 =
     (case (r1, r2) of
        (Rejected m1, Rejected m2) \<Rightarrow> Inl (if second_first then m2 else m1)
      | (Rejected m1, _) \<Rightarrow> Inl m1
      | (_, Rejected m2) \<Rightarrow> Inl m2
      | (Resolved c1, Resolved c2) \<Rightarrow> Inr (Some c1, Some c2)
      | (Resolved c1, NoResult) \<Rightarrow> Inr (Some c1, None)
      | (NoResult, Resolved c2) \<Rightarrow> Inr (None, Some c2)
      | (NoResult, NoResult) \<Rightarrow> Inr (None, None))"

text \<open>The handler after the \<^verbatim>\<open>await\<close>: the \<^verbatim>\<open>try\<close> block, \<^verbatim>\<open>catch\<close> and \<^verbatim>\<open>finally\<close>.\<close>

definition handleVisualize_resume ::
  "string \<Rightarrow> string \<Rightarrow> string + (Coordinates option \<times> Coordinates option) \<Rightarrow> AppState \<Rightarrow> AppState" where
  "handleVisualize_resume from to settled st =
     (let thrown =
            (case settled of
               Inl message \<Rightarrow> Inl message
             | Inr (Some fromCoords, Some toCoords) \<Rightarrow> Inr (fromCoords, toCoords)
             | Inr _ \<Rightarrow> Inl ''Could not find coordinates for one or both locations.'');
          st1 =
            (case thrown of
               Inr (fromCoords, toCoords) \<Rightarrow>
                 st\<lparr>points := Some (\<lparr>name = from, coords = fromCoords\<rparr>,
                                     \<lparr>name = to, coords = toCoords\<rparr>)\<rparr>
             | Inl errorMessage \<Rightarrow>
                 st\<lparr>error := Some (''Failed to fetch location data: '' @ errorMessage)\<rparr>)
      in st1\<lparr>isLoading := False\<rparr>)"

definition handleVisualize ::
  "string \<Rightarrow> string \<Rightarrow> bool \<Rightarrow> geocode_result \<Rightarrow> geocode_result \<Rightarrow> AppState \<Rightarrow> AppState" where
  "handleVisualize from to second_first r1 r2 st =
     (case handleVisualize_begin from to st of
        (st0, False) \<Rightarrow> st0
      | (st0, True) \<Rightarrow> handleVisualize_resume from to (promise_all second_first r1 r2) st0)"

section \<open>Predicates and runs used by the properties\<close>

text \<open>A geocoding call fails when it is rejected or returns no coordinates.\<close>

definition geocode_failed :: "geocode_result \<Rightarrow> bool" where
  "geocode_failed r = (case r of Resolved c \<Rightarrow> False | NoResult \<Rightarrow> True | Rejected m \<Rightarrow> True)"

text \<open>A pair of points on display before a request, for the example.\<close>

definition shown_paris :: "(LocationPoint \<times> LocationPoint) option" where
  "shown_paris = Some (\<lparr>name = ''Paris'', coords = \<lparr>lat = 48.8566, lon = 2.3522\<rparr>\<rparr>,
                       \<lparr>name = ''New York'', coords = \<lparr>lat = 40.7128, lon = - 74.0060\<rparr>\<rparr>)"

text \<open>
  The view of the globe after a list of events, from the view that the first effect
  creates, and the view of the map after a list of events, from the identity transform.
\<close>

definition globe_view_after :: "real \<Rightarrow> real \<Rightarrow> globe_event list \<Rightarrow> GlobeView" where
  "globe_view_after width height events =
     foldl (globe_step width height) (globe_init width height) events"

definition mercator_view_after :: "real \<Rightarrow> real \<Rightarrow> mercator_event list \<Rightarrow> ZoomTransform" where
  "mercator_view_after width height events =
     foldl (mercator_step width height) zoomIdentity events"

text \<open>
  The invariant of the globe: the factor of the zoom transform lies in the extent
  \<^verbatim>\<open>[0.8, 10]\<close> and the scale of the projection is the base scale times that factor.
\<close>

definition globe_invariant :: "real \<Rightarrow> real \<Rightarrow> GlobeView \<Rightarrow> bool" where
  "globe_invariant width height v =
     (0.8 \<le> zoom_k v \<and> zoom_k v \<le> 10
      \<and> scale (projection v) = globe_base_scale width height * zoom_k v)"

text \<open>
  What claim C5 says of a list of longitudes: it changes monotonically, and no two
  consecutive entries differ by more than 180 degrees. The comparisons are those of
  JavaScript numbers, false whenever \<^verbatim>\<open>NaN\<close> takes part.
\<close>

fun adjacent :: "('a \<Rightarrow> 'a \<Rightarrow> bool) \<Rightarrow> 'a list \<Rightarrow> bool" where
  "adjacent P (x # y # ys) = (P x y \<and> adjacent P (y # ys))"
| "adjacent P ys = True"

definition lon_monotone :: "jsnum list \<Rightarrow> bool" where
  "lon_monotone ls = (adjacent (\<lambda>a b. a \<le> b) ls \<or> adjacent (\<lambda>a b. b \<le> a) ls)"

definition no_jump :: "jsnum list \<Rightarrow> bool" where
  "no_jump ls = adjacent (\<lambda>a b. \<bar>b - a\<bar> \<le> Fin 180) ls"

text \<open>
  Two sub-expressions of the route computation, named for the proofs: the end longitude
  after the antimeridian adjustment (radians), and the stretched-latitude difference
  \<^verbatim>\<open>dPsi\<close>, which the distance function computes by the same expression.
\<close>

definition adjusted_lon2 :: "real \<Rightarrow> real \<Rightarrow> real" where
  "adjusted_lon2 lon1 lon2 =
     (if pi < \<bar>lon2 - lon1\<bar> then lon2 + (if lon1 < lon2 then - 2 * pi else 2 * pi) else lon2)"

definition stretched_diff :: "real \<Rightarrow> real \<Rightarrow> jsnum" where
  "stretched_diff phi1 phi2 =
     Math_log (Math_tan (Fin (phi2 / 2 + pi / 4)) / Math_tan (Fin (phi1 / 2 + pi / 4)))"

text \<open>
  The stretched latitude of a latitude strictly between the poles, in radians.
\<close>

definition stretched :: "real \<Rightarrow> real" where
  "stretched phi = ln (tan (phi / 2 + pi / 4))"

text \<open>
  The real values behind the samples of a route whose latitudes are above -90 degrees, the
  pole at 90 degrees included. Every one is computed from the latitude as it is given: the
  tangent that \<^verbatim>\<open>Math.tan\<close> returns, the stretched latitude
  \<^verbatim>\<open>Math.log(Math.tan(lat / 2 + Math.PI / 4))\<close>, the difference \<^verbatim>\<open>dPsi\<close>
  as the logarithm of the quotient of two tangents, the linear interpolation of step
  \<open>i\<close> and the longitude of step \<open>i\<close>.
\<close>

definition tangent :: "real \<Rightarrow> real" where
  "tangent x = (if x = pi / 2 then tan_at_half_pi else tan x)"

definition stretched_at :: "real \<Rightarrow> real" where
  "stretched_at phi = ln (tangent (phi / 2 + pi / 4))"

definition stretched_gap :: "real \<Rightarrow> real \<Rightarrow> real" where
  "stretched_gap phi1 phi2 = ln (tangent (phi2 / 2 + pi / 4) / tangent (phi1 / 2 + pi / 4))"

definition interpolate :: "real \<Rightarrow> real \<Rightarrow> nat \<Rightarrow> real" where
  "interpolate phi1 phi2 i = phi1 + (phi2 - phi1) * (real i / real numPoints)"

definition sample_lon :: "real \<Rightarrow> real \<Rightarrow> real \<Rightarrow> real \<Rightarrow> nat \<Rightarrow> real" where
  "sample_lon phi1 phi2 lon1 lon2 i =
     (if \<bar>stretched_gap phi1 phi2\<bar> < 1 / 10 ^ 10
      then interpolate lon1 lon2 i
      else lon1 + (lon2 - lon1) * (stretched_at (interpolate phi1 phi2 i) - stretched_at phi1) /
                  stretched_gap phi1 phi2)"

text \<open>
  What a sample can be: a point whose latitude is a number in [-90, 90], and a valid
  coordinate, with its longitude in [-180, 180] as well.
\<close>

definition valid_latitude :: "jsnum \<times> jsnum \<Rightarrow> bool" where
  "valid_latitude c = (case snd c of Fin la \<Rightarrow> - 90 \<le> la \<and> la \<le> 90 | _ \<Rightarrow> False)"

definition valid_sample :: "jsnum \<times> jsnum \<Rightarrow> bool" where
  "valid_sample c =
     (case c of (Fin lo, Fin la) \<Rightarrow> valid_coords \<lparr>lat = la, lon = lo\<rparr> | _ \<Rightarrow> False)"

definition loxodromic_q :: "real \<Rightarrow> real \<Rightarrow> jsnum" where
  "loxodromic_q phi1 phi2 =
     (if Fin (1 / 10 ^ 11) < \<bar>stretched_diff phi1 phi2\<bar>
      then Fin (phi2 - phi1) / stretched_diff phi1 phi2
      else Fin (cos phi1))"

section \<open>Properties of the distances\<close>

declare route_loop.simps [simp del]

lemma Fin_minus [simp]: "Fin a - Fin b = Fin (a - b)"
  by (simp add: minus_jsnum_def)

lemma deg2rad_Fin [simp]: "deg2rad (Fin x) = Fin (x * (pi / 180))"
  by (simp add: deg2rad_def Math_PI_def)

lemma deg2rad_Fin_real: "deg2rad (Fin x) = Fin (x * pi / 180)"
  by simp

lemma valid_lat_rad: "valid_coords p \<Longrightarrow> \<bar>lat p * pi / 180\<bar> \<le> pi / 2"
proof -
  assume "valid_coords p"
  then have "\<bar>lat p\<bar> \<le> 90" by (auto simp: valid_coords_def)
  then have "\<bar>lat p\<bar> * pi \<le> 90 * pi" by (intro mult_right_mono) auto
  then show ?thesis by (simp add: abs_mult)
qed

lemma wrap_code:
  "(if Math_PI < \<bar>Fin d\<bar>
    then (if Fin 0 < Fin d then - (Fin 2 * Math_PI - Fin d) else Fin 2 * Math_PI + Fin d)
    else Fin d) = Fin (wrap_shorter d)"
  by (auto simp: Math_PI_def wrap_shorter_def) (insert pi_gt_zero, linarith)+

lemma q_finite:
  "0 \<le> e \<Longrightarrow> \<exists>q. (if Fin e < \<bar>dPsi\<bar> then Fin dPhi / dPsi else Fin c) = Fin q"
  by (cases dPsi) auto

lemma stretched_arg: "Fin phi / Fin 2 + Math_PI / Fin 4 = Fin (phi / 2 + pi / 4)"
  by (simp add: Math_PI_def)

lemma sqrt_sum_Fin:
  "Math_sqrt (Fin a * Fin a + Fin q * Fin q * Fin b * Fin b) * Fin r
     = Fin r * Math_sqrt (Fin (a\<^sup>2) + Fin q * Fin q * Fin (b\<^sup>2))"
proof -
  have "0 \<le> a * a + q * q * b * b"
    by (metis add_nonneg_nonneg mult.assoc zero_le_square zero_le_mult_iff)
  then show ?thesis by (simp add: power2_eq_square mult.assoc not_less)
qed

text \<open>
  Claim C2. The loxodromic distance is \<open>R sqrt (dPhi\<^sup>2 + q\<^sup>2 dLambda\<^sup>2)\<close> with the
  wrapped longitude difference, the stretched-latitude difference and the choice of
  \<open>q\<close> at the threshold \<open>1e-11\<close> that the specification gives.
\<close>

theorem C2_loxodromic_is_reference:
  "calculateLoxodromicDistance p1 p2 = loxodromic_reference p1 p2"
proof -
  define phi1 where "phi1 = lat p1 * pi / 180"
  define phi2 where "phi2 = lat p2 * pi / 180"
  define dLambda where "dLambda = wrap_shorter (lon p2 * pi / 180 - lon p1 * pi / 180)"
  define dPsi where
    "dPsi = Math_log (Math_tan (Fin (phi2 / 2 + pi / 4)) / Math_tan (Fin (phi1 / 2 + pi / 4)))"
  have p1: "deg2rad (Fin (lat p1)) = Fin phi1" and p2: "deg2rad (Fin (lat p2)) = Fin phi2"
    by (simp_all add: phi1_def phi2_def)
  have dl0: "deg2rad (Fin (lon p2 - lon p1)) = Fin (lon p2 * pi / 180 - lon p1 * pi / 180)"
    by (simp add: left_diff_distrib)
  have eps: "Fin (10 / 10 ^ 12) = Fin (1 / 10 ^ 11)" by simp
  have "\<exists>q. (if Fin (1 / 10 ^ 11) < \<bar>dPsi\<bar> then Fin (phi2 - phi1) / dPsi else Fin (cos phi1)) = Fin q"
    by (rule q_finite) simp
  then obtain q where q: "(if Fin (1 / 10 ^ 11) < \<bar>dPsi\<bar> then Fin (phi2 - phi1) / dPsi else Fin (cos phi1)) = Fin q" ..
  have "calculateLoxodromicDistance p1 p2 =
          Math_sqrt (Fin (phi2 - phi1) * Fin (phi2 - phi1) + Fin q * Fin q * Fin dLambda * Fin dLambda) * Fin 6371"
    unfolding calculateLoxodromicDistance_def Let_def p1 p2 dl0 wrap_code stretched_arg eps
      Fin_minus Math_cos.simps
    unfolding dPsi_def[symmetric] dLambda_def[symmetric] q ..
  also have "\<dots> = Fin 6371 * Math_sqrt (Fin ((phi2 - phi1)\<^sup>2) + Fin q * Fin q * Fin (dLambda\<^sup>2))"
    by (rule sqrt_sum_Fin)
  also have "\<dots> = loxodromic_reference p1 p2"
    unfolding loxodromic_reference_def Let_def
    unfolding phi1_def[symmetric] phi2_def[symmetric] dLambda_def[symmetric]
    unfolding dPsi_def[symmetric] q ..
  finally show ?thesis .
qed

section \<open>Properties of the sampled route\<close>

lemma route_loop_map:
  "i \<le> Suc numPoints \<Longrightarrow>
   route_loop lat1 lat2 lon1 lon2 dPsi i acc =
     acc @ map (route_sample lat1 lat2 lon1 lon2 dPsi) [i..<Suc numPoints]"
proof (induction lat1 lat2 lon1 lon2 dPsi i acc rule: route_loop.induct)
  case (1 lat1 lat2 lon1 lon2 dPsi i acc)
  show ?case
  proof (cases "i \<le> numPoints")
    case True
    then have "[i..<Suc numPoints] = i # [i + 1..<Suc numPoints]"
      by (simp add: upt_conv_Cons)
    with True 1 show ?thesis
      by (subst route_loop.simps) simp
  next
    case False
    with 1(2) have "i = Suc numPoints" by simp
    then show ?thesis by (subst route_loop.simps) simp
  qed
qed

lemma loxodromic_route_length: "length (loxodromic_route start endp) = numPoints + 1"
  by (simp add: loxodromic_route_def Let_def route_loop_map)

lemma NaN_absorbs [simp]:
  "x + NaN = NaN" "NaN + x = NaN" "x * NaN = NaN" "NaN * x = NaN"
  "x / NaN = NaN" "NaN / x = NaN" "x - NaN = NaN" "NaN - x = NaN"
  by (cases x; simp add: minus_jsnum_def)+

lemma to_rad: "Fin x * Math_PI / Fin 180 = Fin (x * pi / 180)"
  by (simp add: Math_PI_def)

lemma adjusted_lon2_code:
  "(if Math_PI < \<bar>Fin lon2 - Fin lon1\<bar>
    then Fin lon2 + (if Fin lon1 < Fin lon2 then - Fin 2 * Math_PI else Fin 2 * Math_PI)
    else Fin lon2) = Fin (adjusted_lon2 lon1 lon2)"
  by (simp add: Math_PI_def adjusted_lon2_def)

lemma loxodromic_route_unfold:
  "loxodromic_route start endp =
     map (route_sample (Fin (lat start * pi / 180)) (Fin (lat endp * pi / 180))
            (Fin (lon start * pi / 180))
            (Fin (adjusted_lon2 (lon start * pi / 180) (lon endp * pi / 180)))
            (stretched_diff (lat start * pi / 180) (lat endp * pi / 180)))
         [0..<Suc numPoints]"
  unfolding loxodromic_route_def Let_def to_rad stretched_arg adjusted_lon2_code stretched_diff_def
  by (simp add: route_loop_map del: upt_Suc)

lemma south_pole_sample:
  "route_sample (Fin (- (pi / 2))) (Fin (- (pi / 2))) lon1 lon2 NaN i = (NaN, Fin (- 90))"
  by (simp add: route_sample_def Let_def Math_PI_def numPoints_def minus_jsnum_def)

lemma south_pole_dPsi: "stretched_diff (- (pi / 2)) (- (pi / 2)) = NaN"
  by (simp add: stretched_diff_def inf_of_sign_def)

lemma interior_arg:
  assumes "\<bar>phi\<bar> < pi / 2"
  shows "0 < phi / 2 + pi / 4" "phi / 2 + pi / 4 < pi / 2"
  using assms by (auto simp: abs_less_iff) 

lemma tan_interior_pos: "\<bar>phi\<bar> < pi / 2 \<Longrightarrow> 0 < tan (phi / 2 + pi / 4)"
  using interior_arg[of phi] by (simp add: tan_gt_zero)

lemma Math_tan_interior:
  "\<bar>phi\<bar> < pi / 2 \<Longrightarrow> Math_tan (Fin (phi / 2 + pi / 4)) = Fin (tan (phi / 2 + pi / 4))"
  using interior_arg[of phi] by simp

lemma stretched_diff_interior:
  assumes "\<bar>phi1\<bar> < pi / 2" "\<bar>phi2\<bar> < pi / 2"
  shows "stretched_diff phi1 phi2 = Fin (stretched phi2 - stretched phi1)"
proof -
  have t: "0 < tan (phi1 / 2 + pi / 4)" "0 < tan (phi2 / 2 + pi / 4)"
    using assms by (simp_all add: tan_interior_pos)
  then have "0 < tan (phi2 / 2 + pi / 4) / tan (phi1 / 2 + pi / 4)" by simp
  with t show ?thesis
    unfolding stretched_diff_def stretched_def
      Math_tan_interior[OF assms(1)] Math_tan_interior[OF assms(2)]
    by (simp add: ln_divide_pos)
qed

lemma fraction_bounds:
  "i \<le> numPoints \<Longrightarrow> 0 \<le> real i / real numPoints \<and> real i / real numPoints \<le> 1"
  by (simp add: numPoints_def)

lemma convex_between:
  fixes a b f :: real
  assumes "0 \<le> f" "f \<le> 1"
  shows "min a b \<le> a + (b - a) * f" "a + (b - a) * f \<le> max a b"
proof -
  have e: "a + (b - a) * f = (1 - f) * a + f * b" by (simp add: algebra_simps)
  have "(1 - f) * min a b + f * min a b \<le> (1 - f) * a + f * b"
    using assms by (intro add_mono mult_left_mono) auto
  then show "min a b \<le> a + (b - a) * f" unfolding e by (simp add: algebra_simps)
  have "(1 - f) * a + f * b \<le> (1 - f) * max a b + f * max a b"
    using assms by (intro add_mono mult_left_mono) auto
  then show "a + (b - a) * f \<le> max a b" unfolding e by (simp add: algebra_simps)
qed

lemma interpolate_between:
  assumes "i \<le> numPoints"
  shows "min phi1 phi2 \<le> interpolate phi1 phi2 i" "interpolate phi1 phi2 i \<le> max phi1 phi2"
  unfolding interpolate_def using convex_between fraction_bounds[OF assms] by blast+

lemma interpolate_code:
  "Fin phi1 + (Fin phi2 - Fin phi1) * (Fin (real i) / Fin (real numPoints))
     = Fin (interpolate phi1 phi2 i)"
  by (simp add: interpolate_def numPoints_def)

lemma Math_tan_tangent: "Math_tan (Fin x) = Fin (tangent x)"
  by (simp add: tangent_def)

lemma tangent_pos:
  assumes "- (pi / 2) < phi" "phi \<le> pi / 2"
  shows "0 < tangent (phi / 2 + pi / 4)"
proof (cases "phi = pi / 2")
  case True
  then show ?thesis by (simp add: tangent_def tan_at_half_pi_def)
next
  case False
  with assms have i: "\<bar>phi\<bar> < pi / 2" by (simp add: abs_less_iff)
  then have "phi / 2 + pi / 4 \<noteq> pi / 2" using interior_arg(2)[OF i] by simp
  then show ?thesis using tan_interior_pos[OF i] by (simp add: tangent_def)
qed

lemma Math_log_stretched_at:
  assumes "- (pi / 2) < phi" "phi \<le> pi / 2"
  shows "Math_log (Math_tan (Fin (phi / 2 + pi / 4))) = Fin (stretched_at phi)"
  unfolding Math_tan_tangent using tangent_pos[OF assms] by (simp add: stretched_at_def)

lemma stretched_diff_at:
  assumes "- (pi / 2) < phi1" "phi1 \<le> pi / 2" "- (pi / 2) < phi2" "phi2 \<le> pi / 2"
  shows "stretched_diff phi1 phi2 = Fin (stretched_gap phi1 phi2)"
proof -
  have t: "0 < tangent (phi1 / 2 + pi / 4)" "0 < tangent (phi2 / 2 + pi / 4)"
    using assms by (simp_all add: tangent_pos)
  then have "0 < tangent (phi2 / 2 + pi / 4) / tangent (phi1 / 2 + pi / 4)" by simp
  with t show ?thesis
    unfolding stretched_diff_def stretched_gap_def Math_tan_tangent by simp
qed

lemma interpolate_above:
  assumes "- (pi / 2) < phi1" "phi1 \<le> pi / 2" "- (pi / 2) < phi2" "phi2 \<le> pi / 2"
    and "i \<le> numPoints"
  shows "- (pi / 2) < interpolate phi1 phi2 i" "interpolate phi1 phi2 i \<le> pi / 2"
  using interpolate_between[OF assms(5), of phi1 phi2] assms(1-4)
  by (auto simp: min_def max_def split: if_splits)

lemma sample_above_south_pole:
  assumes "- (pi / 2) < phi1" "phi1 \<le> pi / 2" "- (pi / 2) < phi2" "phi2 \<le> pi / 2"
    and "i \<le> numPoints"
  shows "route_sample (Fin phi1) (Fin phi2) (Fin lon1) (Fin lon2) (stretched_diff phi1 phi2) i
           = (Fin (sample_lon phi1 phi2 lon1 lon2 i * 180 / pi),
              Fin (interpolate phi1 phi2 i * 180 / pi))"
proof -
  have f: "Fin (real i) / Fin (real numPoints) = Fin (real i / real numPoints)"
    by (simp add: numPoints_def)
  have psi_i: "Math_log (Math_tan (Fin (interpolate phi1 phi2 i) / Fin 2 + Math_PI / Fin 4))
                 = Fin (stretched_at (interpolate phi1 phi2 i))"
    unfolding stretched_arg by (rule Math_log_stretched_at[OF interpolate_above[OF assms]])
  have psi1: "Math_log (Math_tan (Fin phi1 / Fin 2 + Math_PI / Fin 4)) = Fin (stretched_at phi1)"
    unfolding stretched_arg by (rule Math_log_stretched_at[OF assms(1,2)])
  show ?thesis
    unfolding route_sample_def Let_def interpolate_code psi_i psi1
      stretched_diff_at[OF assms(1-4)]
    unfolding f
    by (simp add: sample_lon_def Math_PI_def)
qed

lemma sample_latitude:
  "snd (route_sample (Fin phi1) (Fin phi2) lon1 lon2 dPsi i) = Fin (interpolate phi1 phi2 i * 180 / pi)"
  unfolding route_sample_def Let_def snd_conv interpolate_code by (simp add: Math_PI_def)

lemma adjusted_lon2_near:
  assumes "\<bar>lon1\<bar> \<le> pi" "\<bar>lon2\<bar> \<le> pi"
  shows "\<bar>adjusted_lon2 lon1 lon2 - lon1\<bar> \<le> pi"
  using assms unfolding adjusted_lon2_def by (auto simp: abs_le_iff abs_less_iff not_less split: if_splits)

lemma valid_lon_rad: "valid_coords p \<Longrightarrow> \<bar>lon p * pi / 180\<bar> \<le> pi"
proof -
  assume "valid_coords p"
  then have "\<bar>lon p\<bar> \<le> 180" by (auto simp: valid_coords_def)
  then have "\<bar>lon p\<bar> * pi \<le> 180 * pi" by (intro mult_right_mono) auto
  then show ?thesis by (simp add: abs_mult)
qed

lemma interior_lat_rad: "\<bar>x\<bar> < 90 \<Longrightarrow> \<bar>x * pi / 180\<bar> < pi / 2"
proof -
  assume "\<bar>x\<bar> < 90"
  then have "\<bar>x\<bar> * pi < 90 * pi" by (intro mult_strict_right_mono) auto
  then show ?thesis by (simp add: abs_mult)
qed

lemma to_degrees_le:
  fixes x :: real
  shows "\<bar>x\<bar> \<le> pi \<Longrightarrow> \<bar>x * 180 / pi\<bar> \<le> 180" "\<bar>x\<bar> \<le> pi / 2 \<Longrightarrow> \<bar>x * 180 / pi\<bar> \<le> 90"
  by (simp_all add: abs_mult field_simps)

lemma above_south_pole:
  assumes "valid_coords p" "- 90 < lat p"
  shows "- (pi / 2) < lat p * pi / 180" "lat p * pi / 180 \<le> pi / 2"
proof -
  have "- 90 * pi < lat p * pi" using assms(2) by (intro mult_strict_right_mono) auto
  then show "- (pi / 2) < lat p * pi / 180" by simp
  show "lat p * pi / 180 \<le> pi / 2" using valid_lat_rad[OF assms(1)] by (simp add: abs_le_iff)
qed

text \<open>
  With both latitudes above -90 degrees every sample is a pair of finite numbers, computed
  from the latitudes and longitudes as they are given.
\<close>

lemma route_above_south_pole:
  assumes "valid_coords start" "valid_coords endp" "- 90 < lat start" "- 90 < lat endp"
  shows "loxodromic_route start endp =
           map (\<lambda>i. (Fin (sample_lon (lat start * pi / 180) (lat endp * pi / 180)
                             (lon start * pi / 180)
                             (adjusted_lon2 (lon start * pi / 180) (lon endp * pi / 180)) i * 180 / pi),
                      Fin (interpolate (lat start * pi / 180) (lat endp * pi / 180) i * 180 / pi)))
               [0..<numPoints + 1]"
  unfolding loxodromic_route_unfold
  using sample_above_south_pole[OF above_south_pole[OF assms(1,3)] above_south_pole[OF assms(2,4)]]
  by (simp del: upt_Suc)

lemma route_finite:
  assumes "valid_coords start" "valid_coords endp" "- 90 < lat start" "- 90 < lat endp"
  shows "list_all finite_point (loxodromic_route start endp)"
  unfolding route_above_south_pole[OF assms] by (simp add: list_all_iff finite_point_def del: upt_Suc)

lemma route_latitudes:
  assumes "valid_coords start" "valid_coords endp"
  shows "list_all valid_latitude (loxodromic_route start endp)"
proof -
  define phi1 where "phi1 = lat start * pi / 180"
  define phi2 where "phi2 = lat endp * pi / 180"
  have b: "\<bar>phi1\<bar> \<le> pi / 2" "\<bar>phi2\<bar> \<le> pi / 2"
    unfolding phi1_def phi2_def using assms by (simp_all only: valid_lat_rad)
  have "valid_latitude (route_sample (Fin phi1) (Fin phi2) l1 l2 d i)"
    if "i \<le> numPoints" for i l1 l2 d
  proof -
    have "min phi1 phi2 \<le> interpolate phi1 phi2 i" "interpolate phi1 phi2 i \<le> max phi1 phi2"
      using interpolate_between[OF that] by blast+
    with b have "\<bar>interpolate phi1 phi2 i\<bar> \<le> pi / 2"
      by (auto simp: min_def max_def abs_le_iff split: if_splits)
    then have "\<bar>interpolate phi1 phi2 i * 180 / pi\<bar> \<le> 90"
      by (rule to_degrees_le)
    then have "- 90 \<le> interpolate phi1 phi2 i * 180 / pi" "interpolate phi1 phi2 i * 180 / pi \<le> 90"
      by linarith+
    then show ?thesis unfolding valid_latitude_def sample_latitude by simp
  qed
  then show ?thesis
    unfolding loxodromic_route_unfold list_all_iff phi1_def[symmetric] phi2_def[symmetric] by auto
qed

text \<open>
  Claim C6, as amended. For every pair of valid endpoints the route has
  \<open>numPoints + 1\<close> samples, each with a latitude in [-90, 90]; when both latitudes are
  above -90 degrees, the pole at 90 degrees included, every sample is a pair of finite
  numbers. No bound on the longitudes is part of the claim: the antimeridian-adjusted
  longitudes are not wrapped back into [-180, 180].
\<close>

theorem C6_samples_unwrapped:
  assumes "valid_coords start" and "valid_coords endp"
  shows "length (loxodromic_route start endp) = numPoints + 1
       \<and> list_all valid_latitude (loxodromic_route start endp)
       \<and> (- 90 < lat start \<and> - 90 < lat endp \<longrightarrow>
            list_all finite_point (loxodromic_route start endp))"
  using loxodromic_route_length route_latitudes[OF assms] route_finite[OF assms] by blast

text \<open>
  The amended claim C6 for a route from the pole at 90 degrees across the antimeridian.
\<close>

theorem C6_samples_unwrapped_witness:
  "valid_coords \<lparr>lat = 90, lon = 170\<rparr> \<and> valid_coords \<lparr>lat = 0, lon = - 170\<rparr>
   \<and> - 90 < lat \<lparr>lat = 90, lon = 170\<rparr> \<and> - 90 < lat \<lparr>lat = 0, lon = - 170\<rparr>
   \<and> length (loxodromic_route \<lparr>lat = 90, lon = 170\<rparr> \<lparr>lat = 0, lon = - 170\<rparr>) = numPoints + 1
   \<and> list_all valid_latitude (loxodromic_route \<lparr>lat = 90, lon = 170\<rparr> \<lparr>lat = 0, lon = - 170\<rparr>)
   \<and> list_all finite_point (loxodromic_route \<lparr>lat = 90, lon = 170\<rparr> \<lparr>lat = 0, lon = - 170\<rparr>)"
proof -
  have v1: "valid_coords \<lparr>lat = 90, lon = 170\<rparr>" by (simp add: valid_coords_def)
  have v2: "valid_coords \<lparr>lat = 0, lon = - 170\<rparr>" by (simp add: valid_coords_def)
  have a1: "- 90 < lat \<lparr>lat = 90, lon = 170\<rparr>" and a2: "- 90 < lat \<lparr>lat = 0, lon = - 170\<rparr>"
    by simp_all
  show ?thesis using v1 v2 a1 a2 C6_samples_unwrapped[OF v1 v2] by blast
qed

lemma route_nth:
  "i \<le> numPoints \<Longrightarrow>
   loxodromic_route start endp ! i =
     route_sample (Fin (lat start * pi / 180)) (Fin (lat endp * pi / 180))
            (Fin (lon start * pi / 180))
            (Fin (adjusted_lon2 (lon start * pi / 180) (lon endp * pi / 180)))
            (stretched_diff (lat start * pi / 180) (lat endp * pi / 180)) i"
  unfolding loxodromic_route_unfold by (simp del: upt_Suc)

lemma adjusted_antimeridian:
  "adjusted_lon2 (lon \<lparr>lat = 0, lon = 170\<rparr> * pi / 180) (lon \<lparr>lat = 0, lon = - 170\<rparr> * pi / 180)
     = 190 * pi / 180"
  using pi_gt_zero by (simp add: adjusted_lon2_def abs_if)

lemma antimeridian_last_sample:
  "loxodromic_route \<lparr>lat = 0, lon = 170\<rparr> \<lparr>lat = 0, lon = - 170\<rparr> ! 50 = (Fin 190, Fin 0)"
proof -
  have n: "(50::nat) \<le> numPoints" by (simp add: numPoints_def)
  have z: "- (pi / 2) < (0::real)" "(0::real) \<le> pi / 2" by simp_all
  have "loxodromic_route \<lparr>lat = 0, lon = 170\<rparr> \<lparr>lat = 0, lon = - 170\<rparr> ! 50
      = route_sample (Fin 0) (Fin 0) (Fin (170 * pi / 180)) (Fin (190 * pi / 180))
          (stretched_diff 0 0) 50"
    unfolding route_nth[OF n] adjusted_antimeridian by simp
  also have "\<dots> = (Fin (sample_lon 0 0 (170 * pi / 180) (190 * pi / 180) 50 * 180 / pi),
                     Fin (interpolate 0 0 50 * 180 / pi))"
    by (rule sample_above_south_pole[OF z z n])
  also have "\<dots> = (Fin 190, Fin 0)"
    by (simp add: sample_lon_def stretched_gap_def interpolate_def numPoints_def)
  finally show ?thesis .
qed

text \<open>
  Claim C6 as stated fails: from (0, 170) to (0, -170) the route runs eastwards through the
  antimeridian and its last sample has the longitude 190.
\<close>

theorem C6_counterexample:
  "\<not> list_all valid_sample
       (loxodromic_route \<lparr>lat = 0, lon = 170\<rparr> \<lparr>lat = 0, lon = - 170\<rparr>)"
proof
  assume a: "list_all valid_sample
       (loxodromic_route \<lparr>lat = 0, lon = 170\<rparr> \<lparr>lat = 0, lon = - 170\<rparr>)"
  have "50 < length (loxodromic_route \<lparr>lat = 0, lon = 170\<rparr> \<lparr>lat = 0, lon = - 170\<rparr>)"
    by (simp add: loxodromic_route_length numPoints_def)
  with a have "valid_sample
       (loxodromic_route \<lparr>lat = 0, lon = 170\<rparr> \<lparr>lat = 0, lon = - 170\<rparr> ! 50)"
    by (simp add: list_all_length)
  then show False
    unfolding antimeridian_last_sample by (simp add: valid_sample_def valid_coords_def)
qed

lemma loxodromic_unfold:
  "calculateLoxodromicDistance p1 p2 =
     Math_sqrt (Fin (lat p2 * pi / 180 - lat p1 * pi / 180) * Fin (lat p2 * pi / 180 - lat p1 * pi / 180) +
                loxodromic_q (lat p1 * pi / 180) (lat p2 * pi / 180) *
                loxodromic_q (lat p1 * pi / 180) (lat p2 * pi / 180) *
                Fin (wrap_shorter (lon p2 * pi / 180 - lon p1 * pi / 180)) *
                Fin (wrap_shorter (lon p2 * pi / 180 - lon p1 * pi / 180))) * Fin 6371"
proof -
  have dl0: "(lon p2 - lon p1) * pi / 180 = lon p2 * pi / 180 - lon p1 * pi / 180"
    by (simp add: left_diff_distrib diff_divide_distrib)
  have eps: "Fin (10 / 10 ^ 12) = Fin (1 / 10 ^ 11)" by simp
  show ?thesis
    unfolding calculateLoxodromicDistance_def Let_def deg2rad_Fin_real wrap_code stretched_arg eps
      Fin_minus Math_cos.simps
    unfolding stretched_diff_def[symmetric] loxodromic_q_def[symmetric] dl0 ..
qed

lemma loxodromic_q_finite: "\<exists>q. loxodromic_q phi1 phi2 = Fin q"
  unfolding loxodromic_q_def by (rule q_finite) simp

lemma loxodromic_finite: "\<exists>d. calculateLoxodromicDistance p1 p2 = Fin d"
proof -
  obtain q where q: "loxodromic_q (lat p1 * pi / 180) (lat p2 * pi / 180) = Fin q"
    using loxodromic_q_finite by blast
  have "0 \<le> a * a + q * q * b * b" for a b :: real
    by (metis add_nonneg_nonneg mult.assoc zero_le_square zero_le_mult_iff)
  then show ?thesis unfolding loxodromic_unfold q by (simp add: not_less)
qed

lemma equal_lat_stretched_diff:
  assumes "\<bar>phi\<bar> \<le> pi / 2"
  shows "stretched_diff phi phi = Fin 0 \<or> stretched_diff phi phi = NaN"
proof -
  have "\<bar>phi\<bar> < pi / 2 \<or> phi = pi / 2 \<or> phi = - (pi / 2)"
    using assms by (auto simp: abs_if split: if_splits)
  then consider "\<bar>phi\<bar> < pi / 2" | "phi = pi / 2" | "phi = - (pi / 2)"
    by blast
  then show ?thesis
  proof cases
    case 1
    then show ?thesis by (simp add: stretched_diff_interior)
  next
    case 2
    then show ?thesis by (simp add: stretched_diff_def tan_at_half_pi_def)
  next
    case 3
    then show ?thesis by (simp add: stretched_diff_def inf_of_sign_def)
  qed
qed

lemma equal_lat_q:
  assumes "\<bar>phi\<bar> \<le> pi / 2"
  shows "loxodromic_q phi phi = Fin (cos phi)"
  using equal_lat_stretched_diff[OF assms] unfolding loxodromic_q_def by auto

lemma equal_latitude_distance:
  assumes "valid_coords p1" and "lat p2 = lat p1"
  shows "calculateLoxodromicDistance p1 p2 =
           Fin (6371 * (cos (lat p1 * pi / 180) *
                        \<bar>wrap_shorter (lon p2 * pi / 180 - lon p1 * pi / 180)\<bar>))"
proof -
  have c: "0 \<le> cos (lat p1 * pi / 180)"
    using valid_lat_rad[OF assms(1)] by (intro cos_ge_zero) (auto simp: abs_le_iff)
  have "sqrt (c * c * d * d) = c * \<bar>d\<bar>" if "0 \<le> c" for c d :: real
  proof -
    have "c * c * d * d = (c * d)\<^sup>2" by (simp add: power2_eq_square)
    then show ?thesis using that by (simp add: abs_mult)
  qed
  moreover have "0 \<le> c * c * d * d" for c d :: real
    by (metis mult.assoc zero_le_square zero_le_mult_iff)
  ultimately show ?thesis
    unfolding loxodromic_unfold assms(2) equal_lat_q[OF valid_lat_rad[OF assms(1)]]
    using c by (simp add: not_less)
qed

lemma cos_pos_interior: "\<bar>x\<bar> < pi / 2 \<Longrightarrow> 0 < cos x"
  by (rule cos_gt_zero_pi) (simp_all add: abs_less_iff)

lemma sin_lower: 
  fixes x :: real
  assumes "0 \<le> x" "x \<le> 1"
  shows "5 / 6 * x \<le> sin x"
proof -
  have "(\<Sum>m<3. sin_coeff m * x ^ m) = x"
    by (simp add: sin_coeff_def numeral_3_eq_3)
  with Maclaurin_sin_bound[of x 3] have "\<bar>sin x - x\<bar> \<le> inverse (fact 3) * \<bar>x\<bar> ^ 3" by simp
  moreover have "inverse (fact 3) * \<bar>x\<bar> ^ 3 = x ^ 3 / 6"
    using assms by (simp add: fact_numeral)
  moreover have "x ^ 3 \<le> x"
  proof -
    have "x ^ 3 = x * (x * x)" by (simp add: power3_eq_cube mult.assoc)
    moreover have "x * x \<le> 1" using assms by (simp add: mult_le_one)
    ultimately show ?thesis using assms(1) by (metis mult.right_neutral mult_left_mono)
  qed
  ultimately show ?thesis by linarith
qed

text \<open>
  At a latitude of 90 degrees the stretched latitude that the code computes is the logarithm
  of the value of \<^verbatim>\<open>Math.tan\<close> at the pole, about 37.33. A clamp to 89.9999 degrees
  would give the stretched latitude of that latitude, which is smaller (about 13.95).
\<close>

lemma pole_not_clamped:
  "stretched_at (90 * pi / 180) = ln tan_at_half_pi"
  "stretched_at (89.9999 * pi / 180) < ln tan_at_half_pi"
proof -
  show "stretched_at (90 * pi / 180) = ln tan_at_half_pi"
    by (simp add: stretched_at_def tangent_def)
  define d :: real where "d = pi / 3600000"
  have d0: "0 < d" unfolding d_def by simp
  have d1: "d \<le> 1" unfolding d_def using pi_less_4 by simp
  have dlow: "2 / 3600000 \<le> d" unfolding d_def using pi_ge_two by simp
  have arg: "89.9999 * pi / 180 / 2 + pi / 4 = pi / 2 - d" unfolding d_def by simp
  have ne: "pi / 2 - d \<noteq> pi / 2" using d0 by simp
  have s: "5 / 6 * d \<le> sin d" using sin_lower[of d] d0 d1 by simp
  have "d < pi / 2" unfolding d_def using pi_gt_zero by simp
  then have c: "0 < cos d" "cos d \<le> 1"
    using cos_gt_zero_pi[of d] d0 by simp_all
  have "sin d \<le> sin d / cos d"
    using c s d0 by (simp add: field_simps mult_le_cancel_left1)
  then have "5 / 6 * d \<le> sin d / cos d" using s by linarith
  then have t: "5 / 6 * d \<le> tan d" by (simp only: tan_def)
  then have tpos: "0 < tan d" using d0 by linarith
  have "tan (pi / 2 - d) = inverse (tan d)" by (rule tan_cot)
  moreover have "inverse (tan d) \<le> inverse (5 / 6 * d)"
    using t d0 by (intro le_imp_inverse_le) simp_all
  moreover have "inverse (5 / 6 * d) \<le> inverse (5 / 6 * (2 / 3600000))"
    using dlow by (intro le_imp_inverse_le) simp_all
  moreover have "inverse (5 / 6 * (2 / 3600000)) < tan_at_half_pi"
    by (simp add: tan_at_half_pi_def)
  ultimately have lt: "tan (pi / 2 - d) < tan_at_half_pi" by linarith
  have pos: "0 < tan (pi / 2 - d)" using tan_cot[of d] tpos by simp
  show "stretched_at (89.9999 * pi / 180) < ln tan_at_half_pi"
    unfolding stretched_at_def arg tangent_def using ne lt pos by simp
qed

text \<open>
  Claim C4, as amended. Nothing clamps the latitude: both functions compute the stretched
  latitude from the latitude as it is given. For every pair of valid coordinates, the poles
  included, the loxodromic distance is a finite number, and for two points of equal
  latitude \<open>phi\<close> it is \<open>R cos phi |dLambda|\<close> with the latitude as given. For
  latitudes above -90 degrees, the pole at 90 degrees included, every sample of the route
  is the pair of finite numbers that the formulas of the rhumb line give for the latitudes
  as given; at 90 degrees the stretched latitude is \<open>ln 16331239353195370\<close>, not the
  stretched latitude of 89.9999 degrees.
\<close>

theorem C4_latitude_not_clamped:
  assumes "valid_coords p1" and "valid_coords p2"
  shows "(\<exists>d. calculateLoxodromicDistance p1 p2 = Fin d)
       \<and> (lat p2 = lat p1 \<longrightarrow>
            calculateLoxodromicDistance p1 p2 =
              Fin (6371 * (cos (lat p1 * pi / 180) *
                           \<bar>wrap_shorter (lon p2 * pi / 180 - lon p1 * pi / 180)\<bar>)))
       \<and> (- 90 < lat p1 \<and> - 90 < lat p2 \<longrightarrow>
            loxodromic_route p1 p2 =
              map (\<lambda>i. (Fin (sample_lon (lat p1 * pi / 180) (lat p2 * pi / 180)
                                (lon p1 * pi / 180)
                                (adjusted_lon2 (lon p1 * pi / 180) (lon p2 * pi / 180)) i * 180 / pi),
                         Fin (interpolate (lat p1 * pi / 180) (lat p2 * pi / 180) i * 180 / pi)))
                  [0..<numPoints + 1])
       \<and> stretched_at (90 * pi / 180) = ln tan_at_half_pi
       \<and> stretched_at (89.9999 * pi / 180) < ln tan_at_half_pi"
  using loxodromic_finite equal_latitude_distance[OF assms(1)] route_above_south_pole[OF assms]
    pole_not_clamped by blast

text \<open>
  The amended claim C4 at two points of latitude 90: the distance is the value of the
  formula at the pole, and every sample of the route is a pair of finite numbers.
\<close>

theorem C4_latitude_not_clamped_witness:
  "valid_coords \<lparr>lat = 90, lon = 0\<rparr> \<and> valid_coords \<lparr>lat = 90, lon = 10\<rparr>
   \<and> lat \<lparr>lat = 90, lon = 10\<rparr> = lat \<lparr>lat = 90, lon = 0\<rparr>
   \<and> - 90 < lat \<lparr>lat = 90, lon = 0\<rparr> \<and> - 90 < lat \<lparr>lat = 90, lon = 10\<rparr>
   \<and> calculateLoxodromicDistance \<lparr>lat = 90, lon = 0\<rparr> \<lparr>lat = 90, lon = 10\<rparr> =
         Fin (6371 * (cos (lat \<lparr>lat = 90, lon = 0\<rparr> * pi / 180) *
              \<bar>wrap_shorter (lon \<lparr>lat = 90, lon = 10\<rparr> * pi / 180
                              - lon \<lparr>lat = 90, lon = 0\<rparr> * pi / 180)\<bar>))
   \<and> list_all finite_point (loxodromic_route \<lparr>lat = 90, lon = 0\<rparr> \<lparr>lat = 90, lon = 10\<rparr>)"
proof -
  have v1: "valid_coords \<lparr>lat = 90, lon = 0\<rparr>" by (simp add: valid_coords_def)
  have v2: "valid_coords \<lparr>lat = 90, lon = 10\<rparr>" by (simp add: valid_coords_def)
  have e: "lat \<lparr>lat = 90, lon = 10\<rparr> = lat \<lparr>lat = 90, lon = 0\<rparr>" by simp
  have a1: "- 90 < lat \<lparr>lat = 90, lon = 0\<rparr>" and a2: "- 90 < lat \<lparr>lat = 90, lon = 10\<rparr>"
    by simp_all
  note c = C4_latitude_not_clamped[OF v1 v2]
  from c e have d: "calculateLoxodromicDistance \<lparr>lat = 90, lon = 0\<rparr> \<lparr>lat = 90, lon = 10\<rparr> =
         Fin (6371 * (cos (lat \<lparr>lat = 90, lon = 0\<rparr> * pi / 180) *
              \<bar>wrap_shorter (lon \<lparr>lat = 90, lon = 10\<rparr> * pi / 180
                              - lon \<lparr>lat = 90, lon = 0\<rparr> * pi / 180)\<bar>))"
    by blast
  from c a1 a2 have "loxodromic_route \<lparr>lat = 90, lon = 0\<rparr> \<lparr>lat = 90, lon = 10\<rparr> =
              map (\<lambda>i. (Fin (sample_lon (lat \<lparr>lat = 90, lon = 0\<rparr> * pi / 180)
                                (lat \<lparr>lat = 90, lon = 10\<rparr> * pi / 180)
                                (lon \<lparr>lat = 90, lon = 0\<rparr> * pi / 180)
                                (adjusted_lon2 (lon \<lparr>lat = 90, lon = 0\<rparr> * pi / 180)
                                   (lon \<lparr>lat = 90, lon = 10\<rparr> * pi / 180)) i * 180 / pi),
                         Fin (interpolate (lat \<lparr>lat = 90, lon = 0\<rparr> * pi / 180)
                                (lat \<lparr>lat = 90, lon = 10\<rparr> * pi / 180) i * 180 / pi)))
                  [0..<numPoints + 1]"
    by blast
  then have f: "list_all finite_point (loxodromic_route \<lparr>lat = 90, lon = 0\<rparr> \<lparr>lat = 90, lon = 10\<rparr>)"
    by (simp only: list_all_iff) (simp add: finite_point_def del: upt_Suc)
  show ?thesis using v1 v2 e a1 a2 d f by blast
qed

text \<open>
  Claim C4 as stated fails: the distance between two points of latitude -90 is not the
  distance between the points of latitude -89.9999 and the same longitudes, which a clamp
  would return.
\<close>

theorem C4_counterexample:
  "calculateLoxodromicDistance \<lparr>lat = - 90, lon = 0\<rparr> \<lparr>lat = - 90, lon = 10\<rparr>
     \<noteq> calculateLoxodromicDistance \<lparr>lat = - 89.9999, lon = 0\<rparr> \<lparr>lat = - 89.9999, lon = 10\<rparr>"
proof -
  define A where "A = \<lparr>lat = - 89.9999, lon = 0\<rparr>"
  define B where "B = \<lparr>lat = - 89.9999, lon = 10\<rparr>"
  define x where "x = 6371 * (cos (lat A * pi / 180) *
                        \<bar>wrap_shorter (lon B * pi / 180 - lon A * pi / 180)\<bar>)"
  have v1: "valid_coords \<lparr>lat = - 90, lon = 0\<rparr>" by (simp add: valid_coords_def)
  have v2: "valid_coords A" by (simp add: valid_coords_def A_def)
  have pole: "calculateLoxodromicDistance \<lparr>lat = - 90, lon = 0\<rparr> \<lparr>lat = - 90, lon = 10\<rparr> = Fin 0"
    by (simp add: equal_latitude_distance[OF v1])
  have near: "calculateLoxodromicDistance A B = Fin x"
    unfolding x_def by (rule equal_latitude_distance[OF v2]) (simp add: A_def B_def)
  have "wrap_shorter (lon B * pi / 180 - lon A * pi / 180) = pi / 18"
    using pi_gt_zero by (simp add: wrap_shorter_def A_def B_def)
  then have w: "0 < \<bar>wrap_shorter (lon B * pi / 180 - lon A * pi / 180)\<bar>"
    using pi_gt_zero by (simp only: zero_less_abs_iff)
  have "\<bar>lat A * pi / 180\<bar> < pi / 2" by (rule interior_lat_rad) (simp add: A_def)
  then have "0 < cos (lat A * pi / 180)" by (rule cos_pos_interior)
  with w have "0 < x" unfolding x_def by (intro mult_pos_pos) simp_all
  then show ?thesis unfolding pole A_def[symmetric] B_def[symmetric] near by simp
qed

section \<open>Routes along a parallel\<close>

lemma adjacent_nth:
  "adjacent P xs \<longleftrightarrow> (\<forall>i. Suc i < length xs \<longrightarrow> P (xs ! i) (xs ! Suc i))"
proof (induction P xs rule: adjacent.induct)
  case (1 P x y ys)
  show ?case
  proof
    assume a: "adjacent P (x # y # ys)"
    show "\<forall>i. Suc i < length (x # y # ys) \<longrightarrow> P ((x # y # ys) ! i) ((x # y # ys) ! Suc i)"
    proof (intro allI impI)
      fix i assume "Suc i < length (x # y # ys)"
      then show "P ((x # y # ys) ! i) ((x # y # ys) ! Suc i)"
        using a 1 by (cases i) auto
    qed
  next
    assume h: "\<forall>i. Suc i < length (x # y # ys) \<longrightarrow> P ((x # y # ys) ! i) ((x # y # ys) ! Suc i)"
    then have "P x y" by (metis length_Cons nth_Cons_0 nth_Cons_Suc zero_less_Suc Suc_less_eq)
    moreover have "\<forall>i. Suc i < length (y # ys) \<longrightarrow> P ((y # ys) ! i) ((y # ys) ! Suc i)"
    proof (intro allI impI)
      fix i assume "Suc i < length (y # ys)"
      then have "Suc (Suc i) < length (x # y # ys)" by simp
      with h have "P ((x # y # ys) ! Suc i) ((x # y # ys) ! Suc (Suc i))" by blast
      then show "P ((y # ys) ! i) ((y # ys) ! Suc i)" by simp
    qed
    ultimately show "adjacent P (x # y # ys)" using 1 by simp
  qed
qed simp_all

lemma adjacent_map_upt:
  assumes "\<And>i. Suc i < n \<Longrightarrow> P (f i) (f (Suc i))"
  shows "adjacent P (map f [0..<n])"
  unfolding adjacent_nth using assms by simp

lemma less_eq_Fin [simp]: "Fin a \<le> Fin b \<longleftrightarrow> a \<le> b"
  by (auto simp: less_eq_jsnum_def)

lemma east_west_sample:
  "route_sample (Fin phi) (Fin phi) (Fin lon1) (Fin lon2) (Fin 0) i
     = (Fin (interpolate lon1 lon2 i * 180 / pi), Fin (phi * 180 / pi))"
  by (simp add: route_sample_def Let_def interpolate_def numPoints_def Math_PI_def)

lemma equal_lat_stretched_diff_zero:
  assumes "- (pi / 2) < phi" "phi \<le> pi / 2"
  shows "stretched_diff phi phi = Fin 0"
proof (cases "phi = pi / 2")
  case True
  then show ?thesis by (simp add: stretched_diff_def tan_at_half_pi_def)
next
  case False
  with assms have "\<bar>phi\<bar> < pi / 2" by (simp add: abs_less_iff)
  then show ?thesis by (simp add: stretched_diff_interior)
qed

lemma interpolate_step:
  "interpolate a b (Suc i) - interpolate a b i = (b - a) / real numPoints"
  by (simp add: interpolate_def numPoints_def field_simps)

text \<open>
  Two endpoints of equal latitude above -90: the stretched-latitude difference is 0, every
  sample keeps the latitude, and the longitudes run monotonically from the start longitude
  to the adjusted end longitude in steps of at most 3.6 degrees.
\<close>

lemma equal_latitude_route:
  assumes "valid_coords start" and "valid_coords endp"
    and "lat endp = lat start" and "- 90 < lat start"
  shows "map snd (loxodromic_route start endp) = replicate (numPoints + 1) (Fin (lat start))"
    and "lon_monotone (map fst (loxodromic_route start endp))"
    and "no_jump (map fst (loxodromic_route start endp))"
proof -
  define phi where "phi = lat start * pi / 180"
  define l1 where "l1 = lon start * pi / 180"
  define l2 where "l2 = adjusted_lon2 l1 (lon endp * pi / 180)"
  define g where "g = (\<lambda>i. interpolate l1 l2 i * 180 / pi)"
  have "- 90 * pi < lat start * pi" using assms(4) by (intro mult_strict_right_mono) auto
  then have p1: "- (pi / 2) < phi" unfolding phi_def by simp
  have p2: "phi \<le> pi / 2"
    using valid_lat_rad[OF assms(1)] unfolding phi_def by (simp add: abs_le_iff)
  have todeg: "phi * 180 / pi = lat start" unfolding phi_def by simp
  have route: "loxodromic_route start endp = map (\<lambda>i. (Fin (g i), Fin (lat start))) [0..<Suc numPoints]"
    unfolding loxodromic_route_unfold assms(3) phi_def[symmetric] l1_def[symmetric]
    unfolding l2_def[symmetric] equal_lat_stretched_diff_zero[OF p1 p2] east_west_sample todeg g_def ..
  show "map snd (loxodromic_route start endp) = replicate (numPoints + 1) (Fin (lat start))"
    unfolding route by (simp add: comp_def map_replicate_const del: upt_Suc)
  have near: "\<bar>l2 - l1\<bar> \<le> pi"
    unfolding l1_def l2_def using adjusted_lon2_near valid_lon_rad assms(1,2) by blast
  have step: "g (Suc i) - g i = (l2 - l1) / real numPoints * 180 / pi" for i
  proof -
    have "g (Suc i) - g i = (interpolate l1 l2 (Suc i) - interpolate l1 l2 i) * 180 / pi"
      unfolding g_def by (simp add: diff_divide_distrib left_diff_distrib)
    then show ?thesis unfolding interpolate_step .
  qed
  have lons: "map fst (loxodromic_route start endp) = map (\<lambda>i. Fin (g i)) [0..<Suc numPoints]"
    unfolding route by (simp add: comp_def del: upt_Suc)
  show "lon_monotone (map fst (loxodromic_route start endp))"
  proof (cases "l1 \<le> l2")
    case True
    then have "0 \<le> (l2 - l1) / real numPoints * 180 / pi"
      using pi_gt_zero by (intro divide_nonneg_pos mult_nonneg_nonneg) (simp_all add: numPoints_def)
    then have "g i \<le> g (Suc i)" for i
      using step[of i] by linarith
    then have "adjacent (\<lambda>a b. a \<le> b) (map (\<lambda>i. Fin (g i)) [0..<Suc numPoints])"
      by (intro adjacent_map_upt) simp
    then show ?thesis unfolding lon_monotone_def lons by simp
  next
    case False
    then have "(l2 - l1) / real numPoints * 180 / pi \<le> 0"
      using pi_gt_zero
      by (intro divide_nonpos_pos mult_nonpos_nonneg) (simp_all add: numPoints_def)
    then have "g (Suc i) \<le> g i" for i
      using step[of i] by linarith
    then have "adjacent (\<lambda>a b. b \<le> a) (map (\<lambda>i. Fin (g i)) [0..<Suc numPoints])"
      by (intro adjacent_map_upt) simp
    then show ?thesis unfolding lon_monotone_def lons by simp
  qed
  have "\<bar>g (Suc i) - g i\<bar> \<le> 180" for i
  proof -
    have "\<bar>(l2 - l1) * 180 / pi\<bar> \<le> 180" using near by (rule to_degrees_le)
    moreover have "g (Suc i) - g i = ((l2 - l1) * 180 / pi) / 50"
      unfolding step by (simp add: numPoints_def)
    ultimately show ?thesis by (simp add: abs_mult)
  qed
  then have "adjacent (\<lambda>a b. \<bar>b - a\<bar> \<le> Fin 180) (map (\<lambda>i. Fin (g i)) [0..<Suc numPoints])"
    by (intro adjacent_map_upt) simp
  then show "no_jump (map fst (loxodromic_route start endp))"
    unfolding no_jump_def lons .
qed

lemma not_monotone_NaN: "\<not> lon_monotone (replicate 51 NaN)"
proof -
  have "\<not> adjacent P (replicate 51 NaN)" if "\<not> P NaN NaN" for P :: "jsnum \<Rightarrow> jsnum \<Rightarrow> bool"
    unfolding adjacent_nth using that by (auto intro!: exI[of _ 0])
  then show ?thesis unfolding lon_monotone_def by (simp add: less_eq_jsnum_def)
qed

text \<open>
  Claim C5, at two endpoints on the parallel of latitude -90: every sample of the route has
  the longitude \<^verbatim>\<open>NaN\<close>, so the longitudes do not change monotonically. The
  stretched-latitude difference is \<^verbatim>\<open>log(0/0)\<close>, the test
  \<^verbatim>\<open>Math.abs(dPsi) < 1e-10\<close> is false for \<^verbatim>\<open>NaN\<close>, and the other branch
  subtracts two infinite stretched latitudes.
\<close>

theorem C5_south_pole_route:
  "loxodromic_route \<lparr>lat = - 90, lon = 0\<rparr> \<lparr>lat = - 90, lon = 10\<rparr>
     = replicate 51 (NaN, Fin (- 90))
   \<and> \<not> lon_monotone (map fst (loxodromic_route \<lparr>lat = - 90, lon = 0\<rparr> \<lparr>lat = - 90, lon = 10\<rparr>))"
proof -
  have l: "- 90 * pi / 180 = - (pi / 2)" by simp
  have "loxodromic_route \<lparr>lat = - 90, lon = 0\<rparr> \<lparr>lat = - 90, lon = 10\<rparr>
     = map (\<lambda>i. (NaN, Fin (- 90))) [0..<Suc numPoints]"
    unfolding loxodromic_route_unfold
    by (simp add: south_pole_dPsi south_pole_sample del: upt_Suc)
  also have "\<dots> = replicate 51 (NaN, Fin (- 90))"
    by (simp add: map_replicate_const numPoints_def del: upt_Suc)
  finally have r: "loxodromic_route \<lparr>lat = - 90, lon = 0\<rparr> \<lparr>lat = - 90, lon = 10\<rparr>
     = replicate 51 (NaN, Fin (- 90))" .
  show ?thesis unfolding r using not_monotone_NaN by simp
qed

section \<open>Routes from or to the pole at -90 degrees\<close>

lemma south_pole_start_dPsi:
  assumes "- (pi / 2) < phi2" "phi2 \<le> pi / 2"
  shows "stretched_diff (- (pi / 2)) phi2 = PInf"
  using tangent_pos[OF assms]
  by (simp add: stretched_diff_def Math_tan_tangent inf_of_sign_def del: Math_tan.simps)
     (simp add: tangent_def)

lemma south_pole_start_sample:
  assumes "- (pi / 2) < phi2" "phi2 \<le> pi / 2" "i \<le> numPoints"
  shows "fst (route_sample (Fin (- (pi / 2))) (Fin phi2) (Fin lon1) (Fin lon2) PInf i) = NaN"
proof -
  have psi1: "Math_log (Math_tan (Fin (- (pi / 2)) / Fin 2 + Math_PI / Fin 4)) = NInf"
    unfolding stretched_arg by simp
  have psi_i: "Math_log (Math_tan (Fin (interpolate (- (pi / 2)) phi2 i) / Fin 2 + Math_PI / Fin 4))
                 = NInf
             \<or> (\<exists>s. Math_log (Math_tan (Fin (interpolate (- (pi / 2)) phi2 i) / Fin 2 + Math_PI / Fin 4))
                 = Fin s)"
  proof (cases "- (pi / 2) < interpolate (- (pi / 2)) phi2 i")
    case True
    have "interpolate (- (pi / 2)) phi2 i \<le> pi / 2"
      using interpolate_between(2)[OF assms(3), of "- (pi / 2)" phi2] assms(1,2)
      by (simp add: max_def split: if_splits)
    then show ?thesis unfolding stretched_arg using Math_log_stretched_at[OF True] by blast
  next
    case False
    moreover have "- (pi / 2) \<le> interpolate (- (pi / 2)) phi2 i"
      using interpolate_between(1)[OF assms(3), of "- (pi / 2)" phi2] assms(1)
      by (simp add: min_def split: if_splits)
    ultimately have "interpolate (- (pi / 2)) phi2 i = - (pi / 2)" by linarith
    then show ?thesis unfolding stretched_arg by simp
  qed
  have m: "Fin a * (x - NInf) / PInf = NaN" if "x = NInf \<or> (\<exists>s. x = Fin s)" for x a
    using that by (auto simp: minus_jsnum_def inf_of_sign_def)
  show ?thesis
    unfolding route_sample_def Let_def interpolate_code psi1 fst_conv
    using m[OF psi_i] by simp
qed

text \<open>
  The same defect shows on every route from or to latitude -90, whose stretched latitude
  is \<^verbatim>\<open>-Infinity\<close>: a route that starts there has the longitude \<^verbatim>\<open>NaN\<close> in
  every sample, and a route that ends there has it in its last sample.
\<close>

lemma south_pole_start_route:
  assumes "lat start = - 90" "valid_coords endp" "- 90 < lat endp"
  shows "map fst (loxodromic_route start endp) = replicate (numPoints + 1) NaN"
proof -
  have p: "lat start * pi / 180 = - (pi / 2)" using assms(1) by simp
  note e = above_south_pole[OF assms(2,3)]
  have "map fst (loxodromic_route start endp) = map (\<lambda>i. NaN) [0..<numPoints + 1]"
    unfolding loxodromic_route_unfold p south_pole_start_dPsi[OF e]
    using south_pole_start_sample[OF e] by (simp del: upt_Suc)
  then show ?thesis by (simp add: map_replicate_const del: upt_Suc)
qed

lemma south_pole_end_route:
  assumes "valid_coords start" "- 90 < lat start" "lat endp = - 90"
  shows "fst (loxodromic_route start endp ! numPoints) = NaN"
proof -
  have p: "lat endp * pi / 180 = - (pi / 2)" using assms(3) by simp
  note s = above_south_pole[OF assms(1,2)]
  define phi1 where "phi1 = lat start * pi / 180"
  have t: "0 < tangent (phi1 / 2 + pi / 4)" unfolding phi1_def by (rule tangent_pos[OF s])
  have dPsi: "stretched_diff phi1 (- (pi / 2)) = NInf"
    using t by (simp add: stretched_diff_def Math_tan_tangent del: Math_tan.simps)
               (simp add: tangent_def)
  have psi1: "Math_log (Math_tan (Fin phi1 / Fin 2 + Math_PI / Fin 4)) = Fin (stretched_at phi1)"
    unfolding stretched_arg phi1_def by (rule Math_log_stretched_at[OF s])
  have i: "interpolate phi1 (- (pi / 2)) numPoints = - (pi / 2)"
    by (simp add: interpolate_def numPoints_def)
  have psi_i: "Math_log (Math_tan (Fin (- (pi / 2)) / Fin 2 + Math_PI / Fin 4)) = NInf"
    unfolding stretched_arg by simp
  have m: "Fin a * (NInf - Fin b) / NInf = NaN" for a b
    by (auto simp: minus_jsnum_def inf_of_sign_def)
  have n: "numPoints \<le> numPoints" by simp
  show ?thesis
    unfolding route_nth[OF n] p phi1_def[symmetric] dPsi
    unfolding route_sample_def Let_def interpolate_code i psi1 psi_i fst_conv
    by (simp add: m)
qed

section \<open>Properties of the views\<close>

lemma unit_vector: "(cos l * cos p)\<^sup>2 + (sin l * cos p)\<^sup>2 + (sin p)\<^sup>2 = (1::real)"
proof -
  have "(cos l * cos p)\<^sup>2 + (sin l * cos p)\<^sup>2 = ((cos l)\<^sup>2 + (sin l)\<^sup>2) * (cos p)\<^sup>2"
    unfolding power_mult_distrib by (simp only: distrib_right)
  also have "\<dots> = (cos p)\<^sup>2" by simp
  finally show ?thesis by simp
qed

lemma dot_bounds:
  fixes a b c A B C :: real
  assumes "a\<^sup>2 + b\<^sup>2 + c\<^sup>2 = 1" "A\<^sup>2 + B\<^sup>2 + C\<^sup>2 = 1"
  shows "\<bar>a * A + b * B + c * C\<bar> \<le> 1"
proof -
  have "0 \<le> (a - A)\<^sup>2 + (b - B)\<^sup>2 + (c - C)\<^sup>2" by simp
  moreover have "(a - A)\<^sup>2 + (b - B)\<^sup>2 + (c - C)\<^sup>2
      = (a\<^sup>2 + b\<^sup>2 + c\<^sup>2) + (A\<^sup>2 + B\<^sup>2 + C\<^sup>2) - 2 * (a * A + b * B + c * C)"
    by (simp add: power2_eq_square algebra_simps)
  moreover have "0 \<le> (a + A)\<^sup>2 + (b + B)\<^sup>2 + (c + C)\<^sup>2" by simp
  moreover have "(a + A)\<^sup>2 + (b + B)\<^sup>2 + (c + C)\<^sup>2
      = (a\<^sup>2 + b\<^sup>2 + c\<^sup>2) + (A\<^sup>2 + B\<^sup>2 + C\<^sup>2) + 2 * (a * A + b * B + c * C)"
    by (simp add: power2_eq_square algebra_simps)
  ultimately show ?thesis using assms by (simp add: abs_le_iff)
qed

lemma dot_one_equal:
  fixes a b c A B C :: real
  assumes "a\<^sup>2 + b\<^sup>2 + c\<^sup>2 = 1" "A\<^sup>2 + B\<^sup>2 + C\<^sup>2 = 1" "a * A + b * B + c * C = 1"
  shows "a = A \<and> b = B \<and> c = C"
proof -
  have "(a - A)\<^sup>2 + (b - B)\<^sup>2 + (c - C)\<^sup>2
      = (a\<^sup>2 + b\<^sup>2 + c\<^sup>2) + (A\<^sup>2 + B\<^sup>2 + C\<^sup>2) - 2 * (a * A + b * B + c * C)"
    by (simp add: power2_eq_square algebra_simps)
  then have z: "(a - A)\<^sup>2 + (b - B)\<^sup>2 + (c - C)\<^sup>2 = 0" using assms by simp
  have "(a - A)\<^sup>2 = 0 \<and> (b - B)\<^sup>2 = 0 \<and> (c - C)\<^sup>2 = 0"
    using z zero_le_power2[of "a - A"] zero_le_power2[of "b - B"] zero_le_power2[of "c - C"]
    by linarith
  then show ?thesis by simp
qed

lemma geoDistance_dot:
  "geoDistance d (view_center proj) =
     arccos ((cos (fst d * pi / 180 + fst (rotation proj) * pi / 180) * cos (snd d * pi / 180)) *
               cos (fst (snd (rotation proj)) * pi / 180)
           + (sin (fst d * pi / 180 + fst (rotation proj) * pi / 180) * cos (snd d * pi / 180)) * 0
           + sin (snd d * pi / 180) * (- sin (fst (snd (rotation proj)) * pi / 180)))"
proof -
  have "fst d * pi / 180 - - fst (rotation proj) * pi / 180
          = fst d * pi / 180 + fst (rotation proj) * pi / 180" by simp
  then show ?thesis
    unfolding geoDistance_def view_center_def Let_def fst_conv snd_conv
    by (simp add: mult.commute mult.left_commute)
qed

lemma center_vector:
  assumes "geoDistance d (view_center proj) = 0"
  shows "cos (fst d * pi / 180 + fst (rotation proj) * pi / 180) * cos (snd d * pi / 180)
           = cos (fst (snd (rotation proj)) * pi / 180)"
    and "sin (fst d * pi / 180 + fst (rotation proj) * pi / 180) * cos (snd d * pi / 180) = 0"
    and "sin (snd d * pi / 180) = - sin (fst (snd (rotation proj)) * pi / 180)"
proof -
  define a where "a = cos (fst d * pi / 180 + fst (rotation proj) * pi / 180) * cos (snd d * pi / 180)"
  define b where "b = sin (fst d * pi / 180 + fst (rotation proj) * pi / 180) * cos (snd d * pi / 180)"
  define c where "c = sin (snd d * pi / 180)"
  define A where "A = cos (fst (snd (rotation proj)) * pi / 180)"
  define C where "C = - sin (fst (snd (rotation proj)) * pi / 180)"
  have u: "a\<^sup>2 + b\<^sup>2 + c\<^sup>2 = 1" unfolding a_def b_def c_def by (rule unit_vector)
  have U: "A\<^sup>2 + 0\<^sup>2 + C\<^sup>2 = 1" unfolding A_def C_def by simp
  have "\<bar>a * A + b * 0 + c * C\<bar> \<le> 1" using dot_bounds[OF u U] .
  then have "cos (arccos (a * A + b * 0 + c * C)) = a * A + b * 0 + c * C"
    by (intro cos_arccos) (simp_all add: abs_le_iff)
  moreover have "arccos (a * A + b * 0 + c * C) = 0"
    using assms unfolding geoDistance_dot a_def b_def c_def A_def C_def .
  ultimately have "a * A + b * 0 + c * C = 1" by simp
  from dot_one_equal[OF u U this]
  show "cos (fst d * pi / 180 + fst (rotation proj) * pi / 180) * cos (snd d * pi / 180)
           = cos (fst (snd (rotation proj)) * pi / 180)"
    and "sin (fst d * pi / 180 + fst (rotation proj) * pi / 180) * cos (snd d * pi / 180) = 0"
    and "sin (snd d * pi / 180) = - sin (fst (snd (rotation proj)) * pi / 180)"
    unfolding a_def b_def c_def A_def C_def by simp_all
qed

lemma center_projects_to_translate:
  assumes "geoDistance d (view_center proj) = 0"
  shows "orthographic_project proj d = Some (translate proj)"
proof -
  note v = center_vector[OF assms]
  have k: "sin (snd d * pi / 180) * cos (fst (snd (rotation proj)) * pi / 180) +
           cos (fst d * pi / 180 + fst (rotation proj) * pi / 180) * cos (snd d * pi / 180) *
           sin (fst (snd (rotation proj)) * pi / 180) = 0"
    unfolding v by simp
  have "rotate_point (rotation proj) d = (1, 0, 0)"
    unfolding rotate_point_def Let_def k v by (simp add: power2_eq_square[symmetric])
  moreover have "\<not> pi / 2 < geoDistance d (view_center proj)"
    unfolding assms using pi_gt_zero by simp
  ultimately show ?thesis unfolding orthographic_project_def by simp
qed

lemma globe_translate_fixed:
  "translate (projection (foldl (globe_step width height) v events)) = translate (projection v)"
proof (induction events arbitrary: v)
  case Nil
  show ?case by simp
next
  case (Cons ev events)
  have "translate (projection (globe_step width height v ev)) = translate (projection v)"
    by (cases ev)
       (auto simp: on_drag_def on_zoom_def Let_def globe_points_effect_def
             split: option.splits transition.splits)
  with Cons show ?case by simp
qed

lemma globe_view_translate:
  "translate (projection (globe_view_after width height events)) = (width / 2, height / 2)"
  unfolding globe_view_after_def globe_translate_fixed by (simp add: globe_init_def)

text \<open>
  Claim C7. On every view of the globe reached from the initial one, an endpoint is given
  the style \<open>display: none\<close> exactly when its angular distance from the view centre
  \<open>(- lambda0, - phi0)\<close> exceeds \<open>pi / 2\<close>; an endpoint at angular distance 0 from the
  view centre is displayed and its circle is placed at the centre of the viewport.
\<close>

theorem C7_endpoint_visibility:
  "(display (redraw_endpoint (projection (globe_view_after width height events)) d) = ''none''
      \<longleftrightarrow> pi / 2 < geoDistance d (view_center (projection (globe_view_after width height events))))
   \<and> (geoDistance d (view_center (projection (globe_view_after width height events))) = 0 \<longrightarrow>
        redraw_endpoint (projection (globe_view_after width height events)) d
          = \<lparr>cx = Some (width / 2), cy = Some (height / 2), display = ''inline''\<rparr>)"
proof (intro conjI impI)
  show "display (redraw_endpoint (projection (globe_view_after width height events)) d) = ''none''
      \<longleftrightarrow> pi / 2 < geoDistance d (view_center (projection (globe_view_after width height events)))"
    by (simp add: redraw_endpoint_def view_center_def Let_def not_le)
  assume z: "geoDistance d (view_center (projection (globe_view_after width height events))) = 0"
  then have "geoDistance d (- fst (rotation (projection (globe_view_after width height events))),
                            - fst (snd (rotation (projection (globe_view_after width height events))))) \<le> pi / 2"
    unfolding view_center_def using pi_gt_zero by simp
  then show "redraw_endpoint (projection (globe_view_after width height events)) d
          = \<lparr>cx = Some (width / 2), cy = Some (height / 2), display = ''inline''\<rparr>"
    unfolding redraw_endpoint_def Let_def center_projects_to_translate[OF z] globe_view_translate
    by simp
qed

text \<open>
  Claim C7 on the initial view of an 800 by 600 viewport: the point (0, 20) is the view
  centre, at distance 0.
\<close>

theorem C7_endpoint_visibility_witness:
  "geoDistance (0, 20) (view_center (projection (globe_view_after 800 600 []))) = 0
   \<and> redraw_endpoint (projection (globe_view_after 800 600 [])) (0, 20)
         = \<lparr>cx = Some 400, cy = Some 300, display = ''inline''\<rparr>"
proof -
  have "sin (20 * pi / 180) * sin (20 * pi / 180) + cos (20 * pi / 180) * cos (20 * pi / 180) = (1::real)"
    by (simp add: power2_eq_square[symmetric])
  then have z: "geoDistance (0, 20) (view_center (projection (globe_view_after 800 600 []))) = 0"
    by (simp add: geoDistance_def view_center_def globe_view_after_def globe_init_def)
  show ?thesis using z C7_endpoint_visibility[of 800 600 "[]" "(0, 20)"] by simp
qed

lemma Math_min_Fin [simp]: "Math_min (Fin a) (Fin b) = Fin (min a b)"
  by (simp add: min_def)

lemma Math_max_Fin [simp]: "Math_max (Fin a) (Fin b) = Fin (max a b)"
  by (simp add: max_def)

lemma constrain_scale_PInf: "lo \<le> hi \<Longrightarrow> constrain_scale lo hi PInf = Fin hi"
  by (simp add: constrain_scale_def)

declare Math_max.simps [simp del] Math_min.simps [simp del]

lemma constrain_scale_Fin:
  "constrain_scale lo hi (Fin k) = Fin (max lo (min hi k))"
  by (simp add: constrain_scale_def)

lemma in_extent_constrain:
  "lo \<le> hi \<Longrightarrow> in_extent lo hi (constrain_scale lo hi (Fin k))"
  by (simp add: constrain_scale_Fin in_extent_def)

lemma autofit_scale_finite:
  assumes "0 < width" "0 < height"
  shows "autofit_scale (Fin x1, Fin y1) (Fin x2, Fin y2) width height
           = constrain_scale 0.8 18 (Fin 0.9 / Fin (max ((max x1 x2 - min x1 x2) / width)
                                                          ((max y1 y2 - min y1 y2) / height)))"
  using assms by (simp add: autofit_scale_def constrain_scale_def Let_def)

lemma autofit_in_extent:
  assumes "finite_point p1" "finite_point p2" "0 < width" "0 < height"
  shows "in_extent 0.8 18 (autofit_scale p1 p2 width height)"
proof -
  obtain x1 y1 x2 y2 where p: "p1 = (Fin x1, Fin y1)" "p2 = (Fin x2, Fin y2)"
    using assms(1,2) by (auto simp: finite_point_def split: prod.splits jsnum.splits)
  define m where "m = max ((max x1 x2 - min x1 x2) / width) ((max y1 y2 - min y1 y2) / height)"
  have "0 \<le> m" unfolding m_def using assms(3,4) by (simp add: le_max_iff_disj)
  then have "Fin 0.9 / Fin m = PInf \<or> (\<exists>r. Fin 0.9 / Fin m = Fin r)"
    by (simp add: inf_of_sign_def)
  then show ?thesis
    unfolding p autofit_scale_finite[OF assms(3,4)] m_def[symmetric]
    by (auto simp: constrain_scale_PInf constrain_scale_Fin in_extent_def)
qed

lemma mercator_step_extent:
  assumes "in_extent 0.8 18 (zk t)" "mercator_event_ok ev" "0 < width" "0 < height"
  shows "in_extent 0.8 18 (zk (mercator_step width height t ev))"
proof (cases ev)
  case (MWheel f px py)
  obtain k where "zk t = Fin k" using assms(1) by (cases "zk t") (auto simp: in_extent_def)
  then show ?thesis using MWheel by (simp add: Let_def in_extent_constrain)
next
  case (MPan dx dy)
  then show ?thesis using assms(1) by simp
next
  case (MPoints projected)
  show ?thesis
  proof (cases projected)
    case None
    then show ?thesis using MPoints
      by (simp add: mercator_points_effect_def zoomIdentity_def in_extent_def)
  next
    case (Some pp)
    obtain p1 p2 where pp: "pp = (p1, p2)" by (cases pp)
    with Some MPoints assms(2) have "finite_point p1" "finite_point p2" by simp_all
    then have "in_extent 0.8 18 (autofit_scale p1 p2 width height)"
      using assms(3,4) by (rule autofit_in_extent)
    then show ?thesis using MPoints Some pp
      by (simp add: mercator_points_effect_def autofit_transform_def Let_def)
  qed
qed

lemma mercator_run_extent:
  assumes "0 < width" "0 < height"
  shows "in_extent 0.8 18 (zk t) \<Longrightarrow> list_all mercator_event_ok evs \<Longrightarrow>
         in_extent 0.8 18 (zk (foldl (mercator_step width height) t evs))"
proof (induction evs arbitrary: t)
  case Nil
  then show ?case by simp
next
  case (Cons ev evs)
  then show ?case using mercator_step_extent[OF _ _ assms] by simp
qed

lemma globe_step_invariant:
  assumes "globe_invariant width height v"
  shows "globe_invariant width height (globe_step width height v ev)"
proof (cases ev)
  case (GDrag dx dy)
  then show ?thesis using assms by (simp add: globe_invariant_def on_drag_def Let_def)
next
  case (GWheel f)
  then show ?thesis
    by (simp add: globe_invariant_def on_zoom_def Let_def constrain_scale_real_def
        globe_base_scale_def)
next
  case (GPoints center)
  then show ?thesis using assms
    by (cases center) (simp_all add: globe_invariant_def globe_points_effect_def)
qed

lemma globe_run_invariant:
  "globe_invariant width height v \<Longrightarrow>
   globe_invariant width height (foldl (globe_step width height) v evs)"
  by (induction evs arbitrary: v) (simp_all add: globe_step_invariant)

text \<open>
  For a viewport of positive size and projected endpoints that are finite numbers, after
  every list of wheel, drag and points events the factor \<open>k\<close> of the map lies in
  \<^verbatim>\<open>[0.8, 18]\<close>, and on the globe the factor lies in \<^verbatim>\<open>[0.8, 10]\<close> with the
  scale of the projection equal to the base scale times the factor.
\<close>

lemma zoom_factor_stays_in_extent:
  assumes "0 < width" and "0 < height" and "list_all mercator_event_ok map_events"
  shows "in_extent 0.8 18 (zk (mercator_view_after width height map_events))
       \<and> globe_invariant width height (globe_view_after width height globe_events)"
proof
  have "in_extent 0.8 18 (zk zoomIdentity)" by (simp add: zoomIdentity_def in_extent_def)
  then show "in_extent 0.8 18 (zk (mercator_view_after width height map_events))"
    unfolding mercator_view_after_def using mercator_run_extent[OF assms(1,2)] assms(3) by blast
  have "globe_invariant width height (globe_init width height)"
    by (simp add: globe_invariant_def globe_init_def)
  then show "globe_invariant width height
               (globe_view_after width height globe_events)"
    unfolding globe_view_after_def by (rule globe_run_invariant)
qed

lemma Math_max_NaN: "Math_max x NaN = NaN"
  by (cases x) (simp_all add: Math_max.simps)

lemma Math_min_NaN: "Math_min x NaN = NaN"
  by (cases x) (simp_all add: Math_min.simps)

lemma autofit_scale_south_pole:
  "autofit_scale (Fin x1, PInf) (Fin x2, PInf) width height = NaN"
proof -
  have "Math_max PInf PInf - Math_min PInf PInf = NaN"
    by (simp add: Math_max.simps Math_min.simps minus_jsnum_def)
  then show ?thesis
    unfolding autofit_scale_def Let_def fst_conv snd_conv
    by (simp add: Math_max_NaN Math_min_NaN)
qed

text \<open>
  Claim C8, at two endpoints of latitude -90, which the Mercator projection of d3 maps to
  points with \<^verbatim>\<open>y = Infinity\<close>: the height of the bounding box is
  \<^verbatim>\<open>Infinity - Infinity = NaN\<close>, \<^verbatim>\<open>Math.max\<close> and \<^verbatim>\<open>Math.min\<close> return
  \<^verbatim>\<open>NaN\<close> for it, and the transform that the points effect moves to has the factor
  \<^verbatim>\<open>NaN\<close>, which is not in \<^verbatim>\<open>[0.8, 18]\<close>.
\<close>

theorem C8_autofit_at_south_pole:
  "mercator_points_effect (Some ((Fin x1, PInf), (Fin x2, PInf))) width height
     = Transition 1250 (autofit_transform (Fin x1, PInf) (Fin x2, PInf) width height)
   \<and> zk (autofit_transform (Fin x1, PInf) (Fin x2, PInf) width height) = NaN
   \<and> \<not> in_extent 0.8 18 (zk (autofit_transform (Fin x1, PInf) (Fin x2, PInf) width height))"
  by (simp add: mercator_points_effect_def autofit_transform_def Let_def autofit_scale_south_pole
      in_extent_def)

lemma resume_failure:
  assumes "geocode_failed r1 \<or> geocode_failed r2"
  shows "points (handleVisualize_resume from to (promise_all b r1 r2) st) = points st"
    and "error (handleVisualize_resume from to (promise_all b r1 r2) st) \<noteq> None"
    and "\<not> isLoading (handleVisualize_resume from to (promise_all b r1 r2) st)"
  using assms
  by (cases r1; cases r2;
      simp add: geocode_failed_def promise_all_def handleVisualize_resume_def Let_def)+

text \<open>
  Claim C10. A request with two non-empty names sets the points to \<^verbatim>\<open>null\<close> before
  the geocoding calls are awaited; if either call is rejected or returns no coordinates,
  the request ends with no points, an error message and the loading flag off.
\<close>

theorem C10_failed_request_leaves_no_points:
  assumes "from \<noteq> []" and "to \<noteq> []"
  shows "handleVisualize_begin from to st = (st\<lparr>isLoading := True, error := None, points := None\<rparr>, True)
       \<and> (geocode_failed r1 \<or> geocode_failed r2 \<longrightarrow>
            points (handleVisualize from to second_first r1 r2 st) = None
          \<and> error (handleVisualize from to second_first r1 r2 st) \<noteq> None
          \<and> \<not> isLoading (handleVisualize from to second_first r1 r2 st))"
proof (intro conjI impI)
  show b: "handleVisualize_begin from to st = (st\<lparr>isLoading := True, error := None, points := None\<rparr>, True)"
    using assms by (simp add: handleVisualize_begin_def)
  assume f: "geocode_failed r1 \<or> geocode_failed r2"
  have h: "handleVisualize from to second_first r1 r2 st
      = handleVisualize_resume from to (promise_all second_first r1 r2)
          (st\<lparr>isLoading := True, error := None, points := None\<rparr>)"
    unfolding handleVisualize_def b by simp
  show "points (handleVisualize from to second_first r1 r2 st) = None"
    unfolding h resume_failure(1)[OF f] by simp
  show "error (handleVisualize from to second_first r1 r2 st) \<noteq> None"
    unfolding h by (rule resume_failure(2)[OF f])
  show "\<not> isLoading (handleVisualize from to second_first r1 r2 st)"
    unfolding h by (rule resume_failure(3)[OF f])
qed

text \<open>
  Claim C10 with a path on display and a second place that is not found.
\<close>

theorem C10_failed_request_leaves_no_points_witness:
  "''Rome'' \<noteq> [] \<and> ''Atlantis'' \<noteq> []
   \<and> geocode_failed NoResult
   \<and> points (handleVisualize ''Rome'' ''Atlantis'' False (Resolved \<lparr>lat = 41.9, lon = 12.5\<rparr>) NoResult
               \<lparr>points = shown_paris, isLoading = False, error = None\<rparr>) = None
   \<and> error (handleVisualize ''Rome'' ''Atlantis'' False (Resolved \<lparr>lat = 41.9, lon = 12.5\<rparr>) NoResult
               \<lparr>points = shown_paris, isLoading = False, error = None\<rparr>)
       = Some ''Failed to fetch location data: Could not find coordinates for one or both locations.''"
proof -
  have a: "''Rome'' \<noteq> []" "''Atlantis'' \<noteq> []" by simp_all
  have g: "geocode_failed NoResult" by (simp add: geocode_failed_def)
  have e: "error (handleVisualize ''Rome'' ''Atlantis'' False (Resolved \<lparr>lat = 41.9, lon = 12.5\<rparr>) NoResult
               \<lparr>points = shown_paris, isLoading = False, error = None\<rparr>)
       = Some ''Failed to fetch location data: Could not find coordinates for one or both locations.''"
    by (simp add: handleVisualize_def handleVisualize_begin_def handleVisualize_resume_def
        promise_all_def)
  show ?thesis
    using a g e C10_failed_request_leaves_no_points[OF a, of "\<lparr>points = shown_paris, isLoading = False, error = None\<rparr>"
        "Resolved \<lparr>lat = 41.9, lon = 12.5\<rparr>" NoResult False]
    by blast
qed

text \<open>
  Claim C9, as amended. On the map, clearing the points starts a transition of 750 ms to
  the identity transform. On the globe, clearing the points starts no transition and
  leaves the rotation and the scale as they are.
\<close>

theorem C9_clear_resets_map_only:
  "mercator_points_effect None width height = Transition 750 zoomIdentity
   \<and> mercator_step width height t (MPoints None) = zoomIdentity
   \<and> globe_points_effect None proj = None
   \<and> globe_step width height v (GPoints None) = v"
  by (simp add: mercator_points_effect_def globe_points_effect_def)

text \<open>
  Claim C9 as stated fails on the globe: after a drag, clearing the points does not bring
  the view back to its initial state.
\<close>

theorem C9_counterexample:
  "globe_step 800 600 (globe_step 800 600 (globe_init 800 600) (GDrag 40 0)) (GPoints None)
     \<noteq> globe_init 800 600"
  by (simp add: globe_init_def on_drag_def globe_points_effect_def globe_base_scale_def sens_def Let_def)

end
